theory Spec2Isabelle
  imports
    Main
    "HOL-Library.AList"
    "HOL-Library.Char_ord"
    "HOL-Library.List_Lexorder"
    "HOL-Library.Product_Lexorder"
begin

section \<open>KIJ volleyball tournament backend\<close>

text \<open>
  A shallow embedding of \<^verbatim>\<open>src/backend/main.py\<close> (the REST endpoints) and
  \<^verbatim>\<open>src/backend/database.py\<close> (the persistence functions and the standings
  calculation).

  \<^item> A Python \<^verbatim>\<open>dict\<close> is an association list: \<open>map_of\<close> is the lookup,
    \<open>AList.update\<close> the assignment \<^verbatim>\<open>d[k] = v\<close> (in place for a present key, appended
    for a new one, which is Python's insertion order), \<open>AList.map_entry\<close> the
    read-modify-write \<^verbatim>\<open>d[k][f] += v\<close> of a present key.
  \<^item> The PostgreSQL database is an explicit state \<open>db\<close> that every function takes and
    returns; its columns have the types of \<^verbatim>\<open>init_tables\<close>. A \<^verbatim>\<open>raise\<close> is the
    \<open>Inl\<close> of a sum type.
  \<^item> The clock (\<^verbatim>\<open>datetime.now()\<close>) and the database's failures are inputs, gathered in
    \<open>env\<close>.
  \<^item> \<^verbatim>\<open>manager.broadcast(msg)\<close> is recorded as the list of messages an endpoint
    published.
\<close>

subsection \<open>Configuration\<close>

definition MAX_TEAMS :: nat where
  "MAX_TEAMS = 15"

definition SETS_PER_GAME :: nat where
  "SETS_PER_GAME = 2"

subsection \<open>Formatting numbers\<close>

text \<open>Python's \<^verbatim>\<open>str(n)\<close> for a natural number, as the f-strings use it.\<close>

definition digit_char :: "nat \<Rightarrow> char" where
  "digit_char d = ''0123456789'' ! d"

fun str_nat :: "nat \<Rightarrow> string" where
  "str_nat n = (if n < 10 then [digit_char n] else str_nat (n div 10) @ [digit_char (n mod 10)])"

declare str_nat.simps [simp del]

text \<open>\<^verbatim>\<open>sk = f"set{sn}"\<close>\<close>

definition set_key_of :: "nat \<Rightarrow> string" where
  "set_key_of sn = ''set'' @ str_nat sn"

text \<open>\<^verbatim>\<open>range(1, SETS_PER_GAME + 1)\<close>\<close>

definition set_numbers :: "nat list" where
  "set_numbers = [1..<SETS_PER_GAME + 1]"

subsection \<open>Records of the program\<close>

text \<open>
  A timestamp is a clock reading. \<^verbatim>\<open>isoformat\<close> and \<^verbatim>\<open>fromisoformat\<close> are inverse to
  each other on the values the program produces, so the string form is not modelled; an
  ISO string is never empty, hence always truthy.
\<close>

type_synonym timestamp = nat

text \<open>The value of \<^verbatim>\<open>teams[name]\<close>: \<^verbatim>\<open>{"player1": .., "player2": .., "pool": ..}\<close>.\<close>

record team_data =
  player1 :: string
  player2 :: string
  pool :: string

text \<open>\<^verbatim>\<open>{"team1_score": .., "team2_score": ..}\<close>, also a row of table \<^verbatim>\<open>game_sets\<close>.\<close>

record set_score =
  team1_score :: int
  team2_score :: int

text \<open>The dict-shaped game of \<^verbatim>\<open>main.py\<close> and of \<^verbatim>\<open>load_all_games\<close>.\<close>

record game =
  team1 :: string
  team2 :: string
  sets :: "(string \<times> set_score) list"
  completed :: bool
  winner :: "string option"
  start_time :: "timestamp option"
  end_time :: "timestamp option"

text \<open>
  A row of table \<^verbatim>\<open>games\<close> together with its rows of \<^verbatim>\<open>game_sets\<close>, keyed by
  \<^verbatim>\<open>set_number\<close>. The only writer of \<^verbatim>\<open>game_sets\<close> is \<^verbatim>\<open>save_game\<close>, which writes
  set numbers in \<^verbatim>\<open>range(1, SETS_PER_GAME + 1)\<close>.
\<close>

record game_row =
  team1_name :: string
  team2_name :: string
  completed_col :: bool
  winner_col :: "string option"
  start_time_col :: "timestamp option"
  end_time_col :: "timestamp option"
  set_rows :: "(nat \<times> set_score) list"

text \<open>
  The rows of table \<^verbatim>\<open>teams\<close> (unique \<^verbatim>\<open>team_name\<close>) and of table \<^verbatim>\<open>games\<close> (unique
  \<^verbatim>\<open>game_key\<close>), each in insertion order, which for \<^verbatim>\<open>games\<close> is the order of the
  serial \<^verbatim>\<open>id\<close>.
\<close>

record tables =
  teams_rows :: "(string \<times> team_data) list"
  games_rows :: "(string \<times> game_row) list"

text \<open>
  The column types of \<^verbatim>\<open>init_tables\<close>. A \<^verbatim>\<open>VARCHAR(n)\<close> column holds at most \<open>n\<close>
  characters, an \<^verbatim>\<open>INTEGER\<close> column a signed 32-bit number. Names and players are
  \<^verbatim>\<open>VARCHAR(255)\<close>, the pool is \<^verbatim>\<open>VARCHAR(1)\<close>, the game key \<^verbatim>\<open>VARCHAR(512)\<close>, the
  winner \<^verbatim>\<open>VARCHAR(255)\<close>, the scores \<^verbatim>\<open>INTEGER\<close>.
\<close>

definition in_varchar :: "nat \<Rightarrow> string \<Rightarrow> bool" where
  "in_varchar n s = (length s \<le> n)"

definition in_integer :: "int \<Rightarrow> bool" where
  "in_integer v = (- 2147483648 \<le> v \<and> v \<le> 2147483647)"

definition team_row_ok :: "string \<times> team_data \<Rightarrow> bool" where
  "team_row_ok row =
     (in_varchar 255 (fst row) \<and> in_varchar 255 (player1 (snd row)) \<and>
      in_varchar 255 (player2 (snd row)) \<and> in_varchar 1 (pool (snd row)))"

definition set_row_ok :: "nat \<times> set_score \<Rightarrow> bool" where
  "set_row_ok row = (in_integer (team1_score (snd row)) \<and> in_integer (team2_score (snd row)))"

definition game_row_ok :: "string \<times> game_row \<Rightarrow> bool" where
  "game_row_ok row =
     (in_varchar 512 (fst row) \<and> in_varchar 255 (team1_name (snd row)) \<and>
      in_varchar 255 (team2_name (snd row)) \<and>
      (case winner_col (snd row) of None \<Rightarrow> True | Some w \<Rightarrow> in_varchar 255 w) \<and>
      list_all set_row_ok (set_rows (snd row)))"

definition tables_ok :: "tables \<Rightarrow> bool" where
  "tables_ok t = (list_all team_row_ok (teams_rows t) \<and> list_all game_row_ok (games_rows t))"

text \<open>
  The database: tables in which every value fits its column. It is an explicit state that
  the functions of \<^verbatim>\<open>database.py\<close> read through \<open>teams_tbl\<close> and \<open>games_tbl\<close> and
  replace through \<open>put_teams\<close> and \<open>put_games\<close>.
\<close>

typedef db = "{t. tables_ok t}"
  morphisms tables_of Abs_db
  by (rule exI [of _ "\<lparr>teams_rows = [], games_rows = []\<rparr>"]) (simp add: tables_ok_def)

definition db_of :: "tables \<Rightarrow> db" where
  "db_of t = (if tables_ok t then Abs_db t else Abs_db \<lparr>teams_rows = [], games_rows = []\<rparr>)"

definition teams_tbl :: "db \<Rightarrow> (string \<times> team_data) list" where
  "teams_tbl d = teams_rows (tables_of d)"

definition games_tbl :: "db \<Rightarrow> (string \<times> game_row) list" where
  "games_tbl d = games_rows (tables_of d)"

definition put_teams :: "db \<Rightarrow> (string \<times> team_data) list \<Rightarrow> db" where
  "put_teams d rows = db_of ((tables_of d)\<lparr>teams_rows := rows\<rparr>)"

definition put_games :: "db \<Rightarrow> (string \<times> game_row) list \<Rightarrow> db" where
  "put_games d rows = db_of ((tables_of d)\<lparr>games_rows := rows\<rparr>)"

definition empty_db :: db where
  "empty_db = db_of \<lparr>teams_rows = [], games_rows = []\<rparr>"

text \<open>
  The assignment of a value to a column, as PostgreSQL does it in an INSERT. A string
  longer than a \<^verbatim>\<open>VARCHAR(n)\<close> column is cut to \<open>n\<close> characters when all that is cut
  are spaces, and refused otherwise; a number that is not \<open>in_integer\<close> is refused by
  an \<^verbatim>\<open>INTEGER\<close> column. A refusal raises an exception in \<^verbatim>\<open>cur.execute\<close>.
\<close>

definition to_varchar :: "nat \<Rightarrow> string \<Rightarrow> string option" where
  "to_varchar n s =
     (if length s \<le> n then Some s
      else if list_all (\<lambda>c. c = CHR '' '') (drop n s) then Some (take n s)
      else None)"


text \<open>
  What can go wrong in a write to the database, whatever the data. \<open>ConnectFault\<close>:
  \<^verbatim>\<open>get_connection()\<close> raises, which happens outside every \<^verbatim>\<open>try\<close>.
  \<open>StatementFault\<close>: a statement raises inside the \<^verbatim>\<open>try\<close> (a lost connection, a
  server error, ...). A value that its column refuses is not a fault: the functions below
  decide it from the data.
\<close>

datatype db_fault = NoFault | ConnectFault | StatementFault

text \<open>
  The inputs an endpoint reads from its environment: the fault that strikes its write,
  \<^verbatim>\<open>datetime.now().strftime('%Y%m%d_%H%M%S')\<close> and the reading of \<^verbatim>\<open>datetime.now()\<close>
  that is stored.
\<close>

record env =
  fault :: db_fault
  stamp :: string
  now :: timestamp

datatype error =
    HTTPException nat string
  | KeyError string
  | DatabaseError

text \<open>The failure kinds, as the endpoints raise them.\<close>

definition CapacityExceeded :: error where
  "CapacityExceeded = HTTPException 400 (''Maximum '' @ str_nat MAX_TEAMS @ '' teams allowed'')"

definition DuplicateName :: error where
  "DuplicateName = HTTPException 400 ''Team name already exists''"

definition GameNotFound :: error where
  "GameNotFound = HTTPException 404 ''Game not found''"

definition GameAlreadyCompleted :: error where
  "GameAlreadyCompleted = HTTPException 400 ''Game already completed''"

text \<open>The messages handed to \<^verbatim>\<open>manager.broadcast\<close>.\<close>

datatype event =
    TeamsUpdated "(string \<times> team_data) list"
  | GamesUpdated "(string \<times> game) list"
  | ScoreUpdated string "(string \<times> game) list"
  | GameCompleted "(string \<times> game) list"
  | TournamentReset

text \<open>The bodies of the successful responses (\<^verbatim>\<open>"success": True\<close> in each).\<close>

datatype response =
    TeamCreated string
  | Success
  | GameCreated string game
  | ScoreUpdatedResp game
  | WinnerResp string

text \<open>An endpoint's outcome: what the caller gets, the database after, the broadcasts made.\<close>

type_synonym outcome = "(error + response) \<times> db \<times> event list"

subsection \<open>database.py: teams\<close>

text \<open>
  \<^verbatim>\<open>load_all_teams\<close>: the rows ordered by \<^verbatim>\<open>team_name\<close>, written into a dict one by
  one.
\<close>

definition load_all_teams :: "db \<Rightarrow> (string \<times> team_data) list" where
  "load_all_teams d =
     foldl (\<lambda>teams row. AList.update (fst row) (snd row) teams) [] (sort_key fst (teams_tbl d))"

text \<open>The row that the INSERT of \<^verbatim>\<open>save_team\<close> makes of its four values, when the
  columns take them all.\<close>

definition team_values ::
  "string \<Rightarrow> string \<Rightarrow> string \<Rightarrow> string \<Rightarrow> (string \<times> team_data) option" where
  "team_values team_name p1 p2 pl =
     (case to_varchar 255 team_name of
        None \<Rightarrow> None
      | Some n \<Rightarrow>
          (case to_varchar 255 p1 of
             None \<Rightarrow> None
           | Some a \<Rightarrow>
               (case to_varchar 255 p2 of
                  None \<Rightarrow> None
                | Some b \<Rightarrow>
                    (case to_varchar 1 pl of
                       None \<Rightarrow> None
                     | Some c \<Rightarrow> Some (n, \<lparr>player1 = a, player2 = b, pool = c\<rparr>)))))"

text \<open>
  \<^verbatim>\<open>save_team\<close>: a plain INSERT. Only \<^verbatim>\<open>UniqueViolation\<close> is caught (rollback, return
  False), and the unique index compares the name as the column holds it; any other
  exception, a refused value among them, leaves the function.
\<close>

definition save_team ::
  "db_fault \<Rightarrow> db \<Rightarrow> string \<Rightarrow> string \<Rightarrow> string \<Rightarrow> string \<Rightarrow> (error + bool) \<times> db" where
  "save_team f d team_name p1 p2 pl =
     (case f of
        ConnectFault \<Rightarrow> (Inl DatabaseError, d)
      | StatementFault \<Rightarrow> (Inl DatabaseError, d)
      | NoFault \<Rightarrow>
          (case team_values team_name p1 p2 pl of
             None \<Rightarrow> (Inl DatabaseError, d)
           | Some row \<Rightarrow>
               if fst row \<in> fst ` set (teams_tbl d) then (Inr False, d)
               else (Inr True, put_teams d (teams_tbl d @ [row]))))"

text \<open>\<^verbatim>\<open>delete_team\<close>: returns whether a row was deleted.\<close>

definition delete_team :: "db_fault \<Rightarrow> db \<Rightarrow> string \<Rightarrow> (error + bool) \<times> db" where
  "delete_team f d team_name =
     (case f of
        ConnectFault \<Rightarrow> (Inl DatabaseError, d)
      | StatementFault \<Rightarrow> (Inl DatabaseError, d)
      | NoFault \<Rightarrow>
          (Inr (team_name \<in> fst ` set (teams_tbl d)),
           put_teams d (filter (\<lambda>row. fst row \<noteq> team_name) (teams_tbl d))))"

subsection \<open>database.py: games\<close>

definition zero_set :: set_score where
  "zero_set = \<lparr>team1_score = 0, team2_score = 0\<rparr>"

text \<open>
  \<^verbatim>\<open>load_all_games\<close>, one game: the dict made at the game's first joined row, then one
  assignment to \<^verbatim>\<open>sets[f"set{n}"]\<close> for each of its set rows, in the order of
  \<^verbatim>\<open>set_number\<close>. The scores of a set row are integers (\<^verbatim>\<open>save_game\<close> writes no
  NULL, which \<^verbatim>\<open>or 0\<close> would read as 0).
\<close>

definition load_game :: "game_row \<Rightarrow> game" where
  "load_game r =
     foldl
       (\<lambda>g sn. case map_of (set_rows r) sn of
                  None \<Rightarrow> g
                | Some s \<Rightarrow>
                    g\<lparr>sets := AList.update (set_key_of sn)
                                 \<lparr>team1_score = team1_score s, team2_score = team2_score s\<rparr> (sets g)\<rparr>)
       \<lparr>team1 = team1_name r, team2 = team2_name r,
        sets = [(''set1'', zero_set), (''set2'', zero_set)],
        completed = completed_col r, winner = winner_col r,
        start_time = start_time_col r, end_time = end_time_col r\<rparr>
       set_numbers"

definition load_all_games :: "db \<Rightarrow> (string \<times> game) list" where
  "load_all_games d = map (\<lambda>row. (fst row, load_game (snd row))) (games_tbl d)"

text \<open>
  \<^verbatim>\<open>save_game\<close>, the first statement: INSERT, and on a conflict on \<^verbatim>\<open>game_key\<close> an
  UPDATE of \<^verbatim>\<open>completed\<close>, \<^verbatim>\<open>winner\<close> and \<^verbatim>\<open>end_time\<close> only.
\<close>

definition upsert_game_row :: "game_row option \<Rightarrow> game \<Rightarrow> game_row" where
  "upsert_game_row old game_data =
     (case old of
        None \<Rightarrow>
          \<lparr>team1_name = team1 game_data, team2_name = team2 game_data,
           completed_col = completed game_data, winner_col = winner game_data,
           start_time_col = start_time game_data, end_time_col = end_time game_data,
           set_rows = []\<rparr>
      | Some r \<Rightarrow>
          r\<lparr>completed_col := completed game_data, winner_col := winner game_data,
            end_time_col := end_time game_data\<rparr>)"

text \<open>The loop over the set numbers: one upsert per set key present in \<^verbatim>\<open>game_data\<close>.\<close>

definition upsert_set_rows :: "game \<Rightarrow> (nat \<times> set_score) list \<Rightarrow> (nat \<times> set_score) list" where
  "upsert_set_rows game_data rows =
     foldl
       (\<lambda>rs set_num. case map_of (sets game_data) (set_key_of set_num) of
                        None \<Rightarrow> rs
                      | Some s \<Rightarrow>
                          AList.update set_num
                            \<lparr>team1_score = team1_score s, team2_score = team2_score s\<rparr> rs)
       rows set_numbers"

text \<open>
  The values that the statements of \<^verbatim>\<open>save_game\<close> hand to the columns: the key, the two
  team names, the winner, and the two scores of every set written. The result is the key
  and the game as the columns take them, or nothing when a column refuses its value.
\<close>

definition winner_value :: "string option \<Rightarrow> string option option" where
  "winner_value w =
     (case w of None \<Rightarrow> Some None | Some x \<Rightarrow> map_option Some (to_varchar 255 x))"

definition scores_fit :: "game \<Rightarrow> bool" where
  "scores_fit game_data =
     list_all
       (\<lambda>set_num. case map_of (sets game_data) (set_key_of set_num) of
                    None \<Rightarrow> True
                  | Some s \<Rightarrow> in_integer (team1_score s) \<and> in_integer (team2_score s))
       set_numbers"

definition game_values :: "string \<Rightarrow> game \<Rightarrow> (string \<times> game) option" where
  "game_values game_key game_data =
     (case to_varchar 512 game_key of
        None \<Rightarrow> None
      | Some k \<Rightarrow>
          (case to_varchar 255 (team1 game_data) of
             None \<Rightarrow> None
           | Some t1 \<Rightarrow>
               (case to_varchar 255 (team2 game_data) of
                  None \<Rightarrow> None
                | Some t2 \<Rightarrow>
                    (case winner_value (winner game_data) of
                       None \<Rightarrow> None
                     | Some w \<Rightarrow>
                         if scores_fit game_data
                         then Some (k, game_data\<lparr>team1 := t1, team2 := t2, winner := w\<rparr>)
                         else None))))"

text \<open>
  \<^verbatim>\<open>save_game\<close>: every exception inside the \<^verbatim>\<open>try\<close> is caught, a refused value among
  them, the transaction rolled back and False returned.
\<close>

definition save_game :: "db_fault \<Rightarrow> db \<Rightarrow> string \<Rightarrow> game \<Rightarrow> (error + bool) \<times> db" where
  "save_game f d game_key game_data =
     (case f of
        ConnectFault \<Rightarrow> (Inl DatabaseError, d)
      | StatementFault \<Rightarrow> (Inr False, d)
      | NoFault \<Rightarrow>
          (case game_values game_key game_data of
             None \<Rightarrow> (Inr False, d)
           | Some (k, gd) \<Rightarrow>
               (let r = upsert_game_row (map_of (games_tbl d) k) gd;
                    r' = r\<lparr>set_rows := upsert_set_rows gd (set_rows r)\<rparr>
                in (Inr True, put_games d (AList.update k r' (games_tbl d))))))"

text \<open>\<^verbatim>\<open>delete_all_data\<close>\<close>

definition delete_all_data :: "db_fault \<Rightarrow> db \<Rightarrow> (error + bool) \<times> db" where
  "delete_all_data f d =
     (case f of
        ConnectFault \<Rightarrow> (Inl DatabaseError, d)
      | StatementFault \<Rightarrow> (Inr False, d)
      | NoFault \<Rightarrow> (Inr True, db_of \<lparr>teams_rows = [], games_rows = []\<rparr>))"

subsection \<open>database.py: standings\<close>

text \<open>An entry of \<^verbatim>\<open>standings\<close>; \<open>st_team\<close> and \<open>st_pool\<close> are its keys \<^verbatim>\<open>"team"\<close> and
  \<^verbatim>\<open>"pool"\<close>.\<close>

record standing =
  st_team :: string
  st_pool :: string
  games_played :: int
  set_wins :: int
  set_losses :: int
  points_for :: int
  points_against :: int
  point_differential :: int

text \<open>The first loop of \<^verbatim>\<open>calculate_standings\<close>: one zeroed entry per team.\<close>

definition init_standings :: "(string \<times> team_data) list \<Rightarrow> (string \<times> standing) list" where
  "init_standings teams =
     foldl
       (\<lambda>standings row.
          AList.update (fst row)
            \<lparr>st_team = fst row, st_pool = pool (snd row), games_played = 0, set_wins = 0,
             set_losses = 0, points_for = 0, points_against = 0, point_differential = 0\<rparr>
            standings)
       [] teams"

text \<open>The loop over the set numbers of one counted game.\<close>

fun tally_sets ::
  "game \<Rightarrow> string \<Rightarrow> string \<Rightarrow> nat list \<Rightarrow> (string \<times> standing) list \<Rightarrow>
   error + (string \<times> standing) list" where
  "tally_sets gd t1 t2 [] standings = Inr standings"
| "tally_sets gd t1 t2 (sn # sns) standings =
     (let sk = set_key_of sn in
      case map_of (sets gd) sk of
        None \<Rightarrow> Inl (KeyError sk)
      | Some s \<Rightarrow>
          (let s1 = team1_score s;
               s2 = team2_score s;
               st1 = AList.map_entry t1 (\<lambda>x. x\<lparr>points_for := points_for x + s1\<rparr>) standings;
               st2 = AList.map_entry t1 (\<lambda>x. x\<lparr>points_against := points_against x + s2\<rparr>) st1;
               st3 = AList.map_entry t2 (\<lambda>x. x\<lparr>points_for := points_for x + s2\<rparr>) st2;
               st4 = AList.map_entry t2 (\<lambda>x. x\<lparr>points_against := points_against x + s1\<rparr>) st3;
               st5 =
                 (if s1 > s2 then
                    AList.map_entry t2 (\<lambda>x. x\<lparr>set_losses := set_losses x + 1\<rparr>)
                      (AList.map_entry t1 (\<lambda>x. x\<lparr>set_wins := set_wins x + 1\<rparr>) st4)
                  else if s2 > s1 then
                    AList.map_entry t1 (\<lambda>x. x\<lparr>set_losses := set_losses x + 1\<rparr>)
                      (AList.map_entry t2 (\<lambda>x. x\<lparr>set_wins := set_wins x + 1\<rparr>) st4)
                  else st4)
           in tally_sets gd t1 t2 sns st5))"

text \<open>The body of the loop over \<^verbatim>\<open>games.values()\<close>, with its two \<^verbatim>\<open>continue\<close>.\<close>

definition tally_game :: "game \<Rightarrow> (string \<times> standing) list \<Rightarrow> error + (string \<times> standing) list" where
  "tally_game gd standings =
     (if \<not> completed gd then Inr standings
      else
        (let t1 = team1 gd; t2 = team2 gd in
         if t1 \<notin> fst ` set standings \<or> t2 \<notin> fst ` set standings then Inr standings
         else
           (let st1 = AList.map_entry t1 (\<lambda>x. x\<lparr>games_played := games_played x + 1\<rparr>) standings;
                st2 = AList.map_entry t2 (\<lambda>x. x\<lparr>games_played := games_played x + 1\<rparr>) st1
            in case tally_sets gd t1 t2 set_numbers st2 of
                 Inl err \<Rightarrow> Inl err
               | Inr st3 \<Rightarrow>
                   (let st4 = AList.map_entry t1
                                (\<lambda>x. x\<lparr>point_differential := points_for x - points_against x\<rparr>) st3;
                        st5 = AList.map_entry t2
                                (\<lambda>x. x\<lparr>point_differential := points_for x - points_against x\<rparr>) st4
                    in Inr st5))))"

fun tally_games :: "game list \<Rightarrow> (string \<times> standing) list \<Rightarrow> error + (string \<times> standing) list" where
  "tally_games [] standings = Inr standings"
| "tally_games (gd # gds) standings =
     (case tally_game gd standings of
        Inl err \<Rightarrow> Inl err
      | Inr standings' \<Rightarrow> tally_games gds standings')"

text \<open>
  \<^verbatim>\<open>sorted(xs, key=key, reverse=True)\<close>: Python reverses the list, sorts it stably in
  ascending order and reverses the result, so that equal keys keep their order.
\<close>

definition sorted_reverse :: "('a \<Rightarrow> 'k::linorder) \<Rightarrow> 'a list \<Rightarrow> 'a list" where
  "sorted_reverse key xs = rev (sort_key key (rev xs))"

text \<open>The key of the final sort; pairs are compared lexicographically.\<close>

definition standing_key :: "standing \<Rightarrow> int \<times> int" where
  "standing_key x = (set_wins x, point_differential x)"

definition calculate_standings ::
  "(string \<times> team_data) list \<Rightarrow> (string \<times> game) list \<Rightarrow> error + standing list" where
  "calculate_standings teams games =
     (case tally_games (map snd games) (init_standings teams) of
        Inl err \<Rightarrow> Inl err
      | Inr standings \<Rightarrow> Inr (sorted_reverse standing_key (map snd standings)))"

subsection \<open>main.py: teams\<close>

text \<open>\<^verbatim>\<open>POST /api/teams\<close>\<close>

definition create_team :: "env \<Rightarrow> db \<Rightarrow> string \<Rightarrow> string \<Rightarrow> string \<Rightarrow> string \<Rightarrow> outcome" where
  "create_team e d team_name p1 p2 pl =
     (let teams = load_all_teams d in
      if length teams \<ge> MAX_TEAMS then
        (Inl (HTTPException 400 (''Maximum '' @ str_nat MAX_TEAMS @ '' teams allowed'')), d, [])
      else if team_name \<in> fst ` set teams then
        (Inl (HTTPException 400 ''Team name already exists''), d, [])
      else
        (case save_team (fault e) d team_name p1 p2 pl of
           (Inl err, d') \<Rightarrow> (Inl err, d', [])
         | (Inr ok, d') \<Rightarrow>
             if \<not> ok then (Inl (HTTPException 500 ''Failed to save team''), d', [])
             else (Inr (TeamCreated team_name), d', [TeamsUpdated (load_all_teams d')])))"

text \<open>\<^verbatim>\<open>DELETE /api/teams/{team_name}\<close>\<close>

definition remove_team :: "env \<Rightarrow> db \<Rightarrow> string \<Rightarrow> outcome" where
  "remove_team e d team_name =
     (case delete_team (fault e) d team_name of
        (Inl err, d') \<Rightarrow> (Inl err, d', [])
      | (Inr ok, d') \<Rightarrow>
          if \<not> ok then (Inl (HTTPException 404 ''Team not found''), d', [])
          else (Inr Success, d', [TeamsUpdated (load_all_teams d')]))"

subsection \<open>main.py: games\<close>

text \<open>
  \<^verbatim>\<open>POST /api/games\<close>. The value that \<^verbatim>\<open>save_game\<close> returns is dropped.
\<close>

definition create_game :: "env \<Rightarrow> db \<Rightarrow> string \<Rightarrow> string \<Rightarrow> outcome" where
  "create_game e d body_team1 body_team2 =
     (let game_key = body_team1 @ ''_vs_'' @ body_team2 @ ''_'' @ stamp e;
          game_data =
            \<lparr>team1 = body_team1, team2 = body_team2,
             sets = [(''set1'', \<lparr>team1_score = 0, team2_score = 0\<rparr>),
                     (''set2'', \<lparr>team1_score = 0, team2_score = 0\<rparr>)],
             completed = False, winner = None,
             start_time = Some (now e), end_time = None\<rparr>
      in case save_game (fault e) d game_key game_data of
           (Inl err, d') \<Rightarrow> (Inl err, d', [])
         | (Inr ok, d') \<Rightarrow>
             (Inr (GameCreated game_key game_data), d', [GamesUpdated (load_all_games d')]))"

text \<open>
  Reading and writing \<^verbatim>\<open>s[score_field]\<close> in a set dict, whose keys are
  \<^verbatim>\<open>"team1_score"\<close> and \<^verbatim>\<open>"team2_score"\<close>; any other key is a \<^verbatim>\<open>KeyError\<close>.
\<close>

definition get_score :: "set_score \<Rightarrow> string \<Rightarrow> int option" where
  "get_score s score_field =
     (if score_field = ''team1_score'' then Some (team1_score s)
      else if score_field = ''team2_score'' then Some (team2_score s)
      else None)"

definition put_score :: "set_score \<Rightarrow> string \<Rightarrow> int \<Rightarrow> set_score" where
  "put_score s score_field v =
     (if score_field = ''team1_score'' then s\<lparr>team1_score := v\<rparr>
      else if score_field = ''team2_score'' then s\<lparr>team2_score := v\<rparr>
      else s)"

text \<open>
  \<^verbatim>\<open>POST /api/games/score\<close>. The value that \<^verbatim>\<open>save_game\<close> returns is dropped; the
  response carries the game as reloaded.
\<close>

definition update_score :: "env \<Rightarrow> db \<Rightarrow> string \<Rightarrow> string \<Rightarrow> string \<Rightarrow> int \<Rightarrow> outcome" where
  "update_score e d game_key set_key team delta =
     (let games = load_all_games d in
      case map_of games game_key of
        None \<Rightarrow> (Inl (HTTPException 404 ''Game not found''), d, [])
      | Some game \<Rightarrow>
          if completed game then (Inl (HTTPException 400 ''Game already completed''), d, [])
          else
            (let score_field = team @ ''_score'' in
             case map_of (sets game) set_key of
               None \<Rightarrow> (Inl (KeyError set_key), d, [])
             | Some s \<Rightarrow>
                 (case get_score s score_field of
                    None \<Rightarrow> (Inl (KeyError score_field), d, [])
                  | Some current \<Rightarrow>
                      (let new_val = max 0 (current + delta);
                           game' = game\<lparr>sets := AList.update set_key
                                                    (put_score s score_field new_val) (sets game)\<rparr>
                       in case save_game (fault e) d game_key game' of
                            (Inl err, d') \<Rightarrow> (Inl err, d', [])
                          | (Inr ok, d') \<Rightarrow>
                              (let all_games = load_all_games d' in
                               case map_of all_games game_key of
                                 None \<Rightarrow>
                                   (Inl (KeyError game_key), d',
                                    [ScoreUpdated game_key all_games])
                               | Some g \<Rightarrow>
                                   (Inr (ScoreUpdatedResp g), d',
                                    [ScoreUpdated game_key all_games]))))))"

text \<open>
  The loop of \<^verbatim>\<open>complete_game\<close> over the set numbers, with the two tallies
  \<^verbatim>\<open>t1_sets, t2_sets\<close>.
\<close>

fun count_sets :: "game \<Rightarrow> nat list \<Rightarrow> nat \<times> nat \<Rightarrow> error + nat \<times> nat" where
  "count_sets g [] tally = Inr tally"
| "count_sets g (sn # sns) (t1_sets, t2_sets) =
     (let sk = set_key_of sn in
      case map_of (sets g) sk of
        None \<Rightarrow> Inl (KeyError sk)
      | Some s \<Rightarrow>
          (let s1 = team1_score s; s2 = team2_score s in
           if s1 > s2 then count_sets g sns (t1_sets + 1, t2_sets)
           else if s2 > s1 then count_sets g sns (t1_sets, t2_sets + 1)
           else count_sets g sns (t1_sets, t2_sets)))"

text \<open>
  \<^verbatim>\<open>POST /api/games/complete\<close>. There is no test of \<^verbatim>\<open>game["completed"]\<close>; the value
  that \<^verbatim>\<open>save_game\<close> returns is dropped.
\<close>

definition complete_game :: "env \<Rightarrow> db \<Rightarrow> string \<Rightarrow> outcome" where
  "complete_game e d game_key =
     (let games = load_all_games d in
      case map_of games game_key of
        None \<Rightarrow> (Inl (HTTPException 404 ''Game not found''), d, [])
      | Some game \<Rightarrow>
          (case count_sets game set_numbers (0, 0) of
             Inl err \<Rightarrow> (Inl err, d, [])
           | Inr (t1_sets, t2_sets) \<Rightarrow>
               (let w = (if t1_sets > t2_sets then team1 game
                         else if t2_sets > t1_sets then team2 game
                         else ''Split'');
                    game' = game\<lparr>winner := Some w, completed := True, end_time := Some (now e)\<rparr>
                in case save_game (fault e) d game_key game' of
                     (Inl err, d') \<Rightarrow> (Inl err, d', [])
                   | (Inr ok, d') \<Rightarrow>
                       (Inr (WinnerResp w), d', [GameCompleted (load_all_games d')]))))"

subsection \<open>main.py: reset\<close>

text \<open>\<^verbatim>\<open>POST /api/admin/reset\<close>\<close>

definition reset_tournament :: "env \<Rightarrow> db \<Rightarrow> outcome" where
  "reset_tournament e d =
     (case delete_all_data (fault e) d of
        (Inl err, d') \<Rightarrow> (Inl err, d', [])
      | (Inr ok, d') \<Rightarrow>
          if \<not> ok then (Inl (HTTPException 500 ''Reset failed''), d', [])
          else (Inr Success, d', [TournamentReset]))"

subsection \<open>Sequences of requests\<close>

datatype request =
    CreateTeam string string string string
  | RemoveTeam string
  | CreateGame string string
  | UpdateScore string string string int
  | CompleteGame string
  | ResetTournament

fun handle :: "env \<Rightarrow> db \<Rightarrow> request \<Rightarrow> outcome" where
  "handle e d (CreateTeam n p1 p2 pl) = create_team e d n p1 p2 pl"
| "handle e d (RemoveTeam n) = remove_team e d n"
| "handle e d (CreateGame t1 t2) = create_game e d t1 t2"
| "handle e d (UpdateScore k sk t dl) = update_score e d k sk t dl"
| "handle e d (CompleteGame k) = complete_game e d k"
| "handle e d ResetTournament = reset_tournament e d"

text \<open>The database after a sequence of requests, each under its own environment.\<close>

fun run :: "db \<Rightarrow> (env \<times> request) list \<Rightarrow> db" where
  "run d [] = d"
| "run d ((e, rq) # rest) = run (fst (snd (handle e d rq))) rest"

section \<open>Definitions used by the statements\<close>

text \<open>The scores \<^verbatim>\<open>load_all_games\<close> reads for set number \<open>sn\<close> of a row: the zero
  default when \<^verbatim>\<open>game_sets\<close> has no row for it.\<close>

definition row_or_zero :: "game_row \<Rightarrow> nat \<Rightarrow> set_score" where
  "row_or_zero r sn = (case map_of (set_rows r) sn of None \<Rightarrow> zero_set | Some s \<Rightarrow> s)"

text \<open>The game that a committed \<^verbatim>\<open>save_game\<close> leaves under its key, as
  \<^verbatim>\<open>load_all_games\<close> reads it back; \<open>old\<close> is the row the key had before.\<close>

definition saved_game :: "game_row option \<Rightarrow> game \<Rightarrow> game" where
  "saved_game old g =
     load_game ((upsert_game_row old g)
        \<lparr>set_rows := upsert_set_rows g (set_rows (upsert_game_row old g))\<rparr>)"

text \<open>A game whose names, winner and scores fit the columns of \<^verbatim>\<open>games\<close> and
  \<^verbatim>\<open>game_sets\<close> as they are.\<close>

definition game_fits :: "game \<Rightarrow> bool" where
  "game_fits g =
     (in_varchar 255 (team1 g) \<and> in_varchar 255 (team2 g) \<and>
      (case winner g of None \<Rightarrow> True | Some w \<Rightarrow> in_varchar 255 w) \<and> scores_fit g)"

text \<open>
  The winner rule in the words of the specification: a side wins a set when its score is
  strictly higher; the side with strictly more set wins is the winner; equal set wins give
  the sentinel \<^verbatim>\<open>"Split"\<close>.
\<close>

definition spec_set_wins :: "set_score list \<Rightarrow> nat \<times> nat" where
  "spec_set_wins ss =
     (length (filter (\<lambda>s. team1_score s > team2_score s) ss),
      length (filter (\<lambda>s. team2_score s > team1_score s) ss))"

definition spec_winner :: "string \<Rightarrow> string \<Rightarrow> set_score list \<Rightarrow> string" where
  "spec_winner t1 t2 ss =
     (let (w1, w2) = spec_set_wins ss in
      if w1 > w2 then t1 else if w2 > w1 then t2 else ''Split'')"

text \<open>A database holding one game, \<^verbatim>\<open>"A"\<close> against \<^verbatim>\<open>"B"\<close> under key \<^verbatim>\<open>"k"\<close>, with the
  given scores of its two sets.\<close>

definition one_game_row :: "bool \<Rightarrow> set_score \<Rightarrow> set_score \<Rightarrow> game_row" where
  "one_game_row c a b =
     \<lparr>team1_name = ''A'', team2_name = ''B'', completed_col = c, winner_col = None,
      start_time_col = Some 3, end_time_col = None, set_rows = [(1, a), (2, b)]\<rparr>"

definition one_game_db :: "bool \<Rightarrow> set_score \<Rightarrow> set_score \<Rightarrow> db" where
  "one_game_db c a b = db_of \<lparr>teams_rows = [], games_rows = [(''k'', one_game_row c a b)]\<rparr>"




text \<open>An environment without faults, for the examples.\<close>

definition env0 :: env where
  "env0 = \<lparr>fault = NoFault, stamp = ''s'', now = 9\<rparr>"

text \<open>The game that \<^verbatim>\<open>create_game\<close> builds for two names at a clock reading.\<close>

definition new_game :: "string \<Rightarrow> string \<Rightarrow> timestamp \<Rightarrow> game" where
  "new_game t1 t2 t =
     \<lparr>team1 = t1, team2 = t2,
      sets = [(''set1'', \<lparr>team1_score = 0, team2_score = 0\<rparr>),
              (''set2'', \<lparr>team1_score = 0, team2_score = 0\<rparr>)],
      completed = False, winner = None, start_time = Some t, end_time = None\<rparr>"

text \<open>An environment whose write fails inside the \<^verbatim>\<open>try\<close>.\<close>

definition failing_env :: env where
  "failing_env = \<lparr>fault = StatementFault, stamp = ''s'', now = 9\<rparr>"

text \<open>Table \<^verbatim>\<open>teams\<close> is well formed: its names are unique and it holds at most
  \<open>MAX_TEAMS\<close> rows.\<close>

definition teams_wf :: "db \<Rightarrow> bool" where
  "teams_wf d = (distinct (map fst (teams_tbl d)) \<and> length (teams_tbl d) \<le> MAX_TEAMS)"

text \<open>A database with one team, and one with fifteen.\<close>

definition one_team_db :: db where
  "one_team_db =
     db_of \<lparr>teams_rows = [(''T'', \<lparr>player1 = ''x'', player2 = ''y'', pool = ''B''\<rparr>)],
            games_rows = []\<rparr>"

definition fifteen_teams_db :: db where
  "fifteen_teams_db =
     db_of \<lparr>teams_rows = map (\<lambda>c. ([c], \<lparr>player1 = [], player2 = [], pool = ''A''\<rparr>))
                           ''abcdefghijklmno'',
            games_rows = []\<rparr>"

text \<open>
  A name of 255 characters, the width of the column \<^verbatim>\<open>team_name\<close>, and a database
  whose one team has that name.
\<close>

definition long_name :: string where
  "long_name = replicate 255 CHR ''a''"

definition long_team_db :: db where
  "long_team_db =
     db_of \<lparr>teams_rows = [(long_name, \<lparr>player1 = ''x'', player2 = ''y'', pool = ''B''\<rparr>)],
            games_rows = []\<rparr>"

text \<open>Every stored game that is not completed has no \<^verbatim>\<open>end_time\<close>.\<close>

definition open_unended :: "db \<Rightarrow> bool" where
  "open_unended d =
     list_all (\<lambda>entry. completed (snd entry) \<or> end_time (snd entry) = None) (load_all_games d)"

text \<open>
  The standings in the words of the specification. A game is counted when it is completed
  and both of its team names are registered. The scores of a game are those of its sets,
  in the order of the set numbers.
\<close>

definition counted :: "(string \<times> team_data) list \<Rightarrow> game \<Rightarrow> bool" where
  "counted teams gd =
     (completed gd \<and> team1 gd \<in> fst ` set teams \<and> team2 gd \<in> fst ` set teams)"

definition score_of :: "game \<Rightarrow> nat \<Rightarrow> set_score" where
  "score_of gd sn = (case map_of (sets gd) (set_key_of sn) of None \<Rightarrow> zero_set | Some s \<Rightarrow> s)"

definition game_scores :: "game \<Rightarrow> set_score list" where
  "game_scores gd = map (score_of gd) set_numbers"

definition has_sets :: "game \<Rightarrow> bool" where
  "has_sets gd = list_all (\<lambda>sn. map_of (sets gd) (set_key_of sn) \<noteq> None) set_numbers"

text \<open>Points and set wins of team 1 and of team 2 in a game, the wins by the strict rule
  of completion.\<close>

definition pts1 :: "game \<Rightarrow> int" where
  "pts1 gd = sum_list (map team1_score (game_scores gd))"

definition pts2 :: "game \<Rightarrow> int" where
  "pts2 gd = sum_list (map team2_score (game_scores gd))"

definition wins1 :: "game \<Rightarrow> int" where
  "wins1 gd = int (fst (spec_set_wins (game_scores gd)))"

definition wins2 :: "game \<Rightarrow> int" where
  "wins2 gd = int (snd (spec_set_wins (game_scores gd)))"

text \<open>The entry of team \<open>t\<close> of pool \<open>p\<close>: sums over the counted games in which \<open>t\<close> is
  team 1 and over those in which it is team 2.\<close>

definition spec_standing ::
  "(string \<times> team_data) list \<Rightarrow> game list \<Rightarrow> string \<Rightarrow> string \<Rightarrow> standing" where
  "spec_standing teams gds t p =
     (let cs = filter (counted teams) gds;
          as1 = filter (\<lambda>gd. team1 gd = t) cs;
          as2 = filter (\<lambda>gd. team2 gd = t) cs;
          pf = sum_list (map pts1 as1) + sum_list (map pts2 as2);
          pa = sum_list (map pts2 as1) + sum_list (map pts1 as2)
      in \<lparr>st_team = t, st_pool = p,
          games_played = int (length as1) + int (length as2),
          set_wins = sum_list (map wins1 as1) + sum_list (map wins2 as2),
          set_losses = sum_list (map wins2 as1) + sum_list (map wins1 as2),
          points_for = pf, points_against = pa, point_differential = pf - pa\<rparr>)"

definition spec_table :: "(string \<times> team_data) list \<Rightarrow> game list \<Rightarrow> (string \<times> standing) list" where
  "spec_table teams gds =
     map (\<lambda>row. (fst row, spec_standing teams gds (fst row) (pool (snd row)))) teams"

text \<open>
  What the body of the set loop does to the entry of team \<open>t\<close> for a set \<open>s\<close> of a game of
  \<open>t1\<close> against \<open>t2\<close>, and what the body of the game loop does to it for a counted game
  with sets \<open>a\<close> and \<open>b\<close>.
\<close>

definition set_effect :: "string \<Rightarrow> string \<Rightarrow> string \<Rightarrow> set_score \<Rightarrow> standing \<Rightarrow> standing" where
  "set_effect t t1 t2 s x =
     x\<lparr>points_for := points_for x + (if t = t1 then team1_score s else 0)
                        + (if t = t2 then team2_score s else 0),
       points_against := points_against x + (if t = t1 then team2_score s else 0)
                        + (if t = t2 then team1_score s else 0),
       set_wins := set_wins x + (if t = t1 \<and> team1_score s > team2_score s then 1 else 0)
                        + (if t = t2 \<and> team2_score s > team1_score s then 1 else 0),
       set_losses := set_losses x + (if t = t2 \<and> team1_score s > team2_score s then 1 else 0)
                        + (if t = t1 \<and> team2_score s > team1_score s then 1 else 0)\<rparr>"

definition game_effect ::
  "string \<Rightarrow> string \<Rightarrow> string \<Rightarrow> set_score \<Rightarrow> set_score \<Rightarrow> standing \<Rightarrow> standing" where
  "game_effect t t1 t2 a b x =
     (let y = set_effect t t1 t2 b (set_effect t t1 t2 a
                (x\<lparr>games_played := games_played x + (if t = t1 then 1 else 0)
                                      + (if t = t2 then 1 else 0)\<rparr>))
      in if t = t1 \<or> t = t2 then y\<lparr>point_differential := points_for y - points_against y\<rparr>
         else y)"

text \<open>
  Four teams and three completed games: \<^verbatim>\<open>A\<close> beats \<^verbatim>\<open>D\<close> 21-16, 21-16 (two set wins,
  +10), \<^verbatim>\<open>B\<close> beats \<^verbatim>\<open>D\<close> 21-19, 21-20 (two set wins, +3), \<^verbatim>\<open>C\<close> and \<^verbatim>\<open>D\<close> split
  60-5, 10-15 (one set win, +50); a fourth game is not completed and a fifth names an
  unknown team.
\<close>

definition example_game :: "string \<Rightarrow> string \<Rightarrow> bool \<Rightarrow> int \<Rightarrow> int \<Rightarrow> int \<Rightarrow> int \<Rightarrow> game" where
  "example_game t1 t2 c x1 y1 x2 y2 =
     \<lparr>team1 = t1, team2 = t2,
      sets = [(''set1'', \<lparr>team1_score = x1, team2_score = y1\<rparr>),
              (''set2'', \<lparr>team1_score = x2, team2_score = y2\<rparr>)],
      completed = c, winner = None, start_time = Some 3, end_time = None\<rparr>"

definition example_teams :: "(string \<times> team_data) list" where
  "example_teams =
     [(''D'', \<lparr>player1 = [], player2 = [], pool = ''A''\<rparr>),
      (''C'', \<lparr>player1 = [], player2 = [], pool = ''A''\<rparr>),
      (''B'', \<lparr>player1 = [], player2 = [], pool = ''A''\<rparr>),
      (''A'', \<lparr>player1 = [], player2 = [], pool = ''A''\<rparr>)]"

definition example_games :: "(string \<times> game) list" where
  "example_games =
     [(''g1'', example_game ''A'' ''D'' True 21 16 21 16),
      (''g2'', example_game ''B'' ''D'' True 21 19 21 20),
      (''g3'', example_game ''C'' ''D'' True 60 5 10 15),
      (''g4'', example_game ''A'' ''B'' False 21 0 21 0),
      (''g5'', example_game ''A'' ''Z'' True 21 0 21 0)]"

section \<open>Basic facts\<close>

lemma set_key_of_1: "set_key_of (Suc 0) = ''set1''"
  by (simp add: set_key_of_def str_nat.simps digit_char_def)

lemma set_key_of_2: "set_key_of 2 = ''set2''"
  by (simp add: set_key_of_def str_nat.simps digit_char_def)

lemma set_numbers_eq: "set_numbers = [1, 2]"
  by (simp add: set_numbers_def SETS_PER_GAME_def upt_rec)

lemma load_game_eq:
  "load_game r =
     \<lparr>team1 = team1_name r, team2 = team2_name r,
      sets = [(''set1'', row_or_zero r 1), (''set2'', row_or_zero r 2)],
      completed = completed_col r, winner = winner_col r,
      start_time = start_time_col r, end_time = end_time_col r\<rparr>"
  by (simp add: load_game_def set_numbers_eq set_key_of_1 set_key_of_2 row_or_zero_def
      split: option.splits)

lemma map_of_load_rows:
  "map_of (map (\<lambda>row. (fst row, load_game (snd row))) tbl) k = map_option load_game (map_of tbl k)"
  by (induction tbl) auto

lemma map_of_load_all_games:
  "map_of (load_all_games d) k = map_option load_game (map_of (games_tbl d) k)"
  by (simp add: load_all_games_def map_of_load_rows)

lemma count_sets_loaded:
  "count_sets (load_game r) set_numbers (0, 0) =
     Inr (spec_set_wins [row_or_zero r 1, row_or_zero r 2])"
  by (simp add: load_game_eq set_numbers_eq set_key_of_1 set_key_of_2 spec_set_wins_def)

lemma upsert_set_rows_1:
  "map_of (upsert_set_rows g rows) (Suc 0) =
     (case map_of (sets g) ''set1'' of None \<Rightarrow> map_of rows (Suc 0) | Some s \<Rightarrow> Some s)"
  by (simp add: upsert_set_rows_def set_numbers_eq set_key_of_1 set_key_of_2 update_conv'
      split: option.splits)

lemma upsert_set_rows_2:
  "map_of (upsert_set_rows g rows) 2 =
     (case map_of (sets g) ''set2'' of None \<Rightarrow> map_of rows 2 | Some s \<Rightarrow> Some s)"
  by (simp add: upsert_set_rows_def set_numbers_eq set_key_of_1 set_key_of_2 update_conv'
      split: option.splits)

subsection \<open>The database and its columns\<close>

lemma tables_of_ok: "tables_ok (tables_of d)"
  using tables_of [of d] by simp

lemma tables_of_db_of: "tables_ok t \<Longrightarrow> tables_of (db_of t) = t"
  by (simp add: db_of_def Abs_db_inverse)

lemma teams_rows_ok: "list_all team_row_ok (teams_tbl d)"
  using tables_of_ok [of d] by (simp add: tables_ok_def teams_tbl_def)

lemma games_rows_ok: "list_all game_row_ok (games_tbl d)"
  using tables_of_ok [of d] by (simp add: tables_ok_def games_tbl_def)

lemma put_games_tbl:
  assumes "list_all game_row_ok rows"
  shows "games_tbl (put_games d rows) = rows" and "teams_tbl (put_games d rows) = teams_tbl d"
proof -
  have "tables_ok ((tables_of d)\<lparr>games_rows := rows\<rparr>)"
    using assms tables_of_ok [of d] by (simp add: tables_ok_def)
  then show "games_tbl (put_games d rows) = rows"
    and "teams_tbl (put_games d rows) = teams_tbl d"
    by (simp_all add: put_games_def games_tbl_def teams_tbl_def tables_of_db_of)
qed

lemma put_teams_tbl:
  assumes "list_all team_row_ok rows"
  shows "teams_tbl (put_teams d rows) = rows" and "games_tbl (put_teams d rows) = games_tbl d"
proof -
  have "tables_ok ((tables_of d)\<lparr>teams_rows := rows\<rparr>)"
    using assms tables_of_ok [of d] by (simp add: tables_ok_def)
  then show "teams_tbl (put_teams d rows) = rows"
    and "games_tbl (put_teams d rows) = games_tbl d"
    by (simp_all add: put_teams_def games_tbl_def teams_tbl_def tables_of_db_of)
qed

lemma db_of_tbl:
  assumes "list_all team_row_ok ts" and "list_all game_row_ok gs"
  shows "teams_tbl (db_of \<lparr>teams_rows = ts, games_rows = gs\<rparr>) = ts"
    and "games_tbl (db_of \<lparr>teams_rows = ts, games_rows = gs\<rparr>) = gs"
  using assms by (simp_all add: teams_tbl_def games_tbl_def tables_of_db_of tables_ok_def)

lemma empty_db_tbl: "teams_tbl empty_db = []" "games_tbl empty_db = []"
  by (simp_all add: empty_db_def db_of_tbl)

lemma db_eqI: "teams_tbl d = teams_tbl d' \<Longrightarrow> games_tbl d = games_tbl d' \<Longrightarrow> d = d'"
  by (simp add: teams_tbl_def games_tbl_def tables_of_inject [symmetric])

lemma to_varchar_fits: "in_varchar n s \<Longrightarrow> to_varchar n s = Some s"
  by (simp add: to_varchar_def in_varchar_def)

lemma to_varchar_in: "to_varchar n s = Some s' \<Longrightarrow> in_varchar n s'"
  by (auto simp: to_varchar_def in_varchar_def split: if_splits)

lemma winner_value_fits:
  "(case w of None \<Rightarrow> True | Some x \<Rightarrow> in_varchar 255 x) \<Longrightarrow> winner_value w = Some w"
  by (cases w) (simp_all add: winner_value_def to_varchar_fits)

lemma winner_value_in:
  "winner_value w = Some w' \<Longrightarrow> (case w' of None \<Rightarrow> True | Some x \<Rightarrow> in_varchar 255 x)"
  by (cases w) (auto simp: winner_value_def dest: to_varchar_in)

lemma game_values_fits: "in_varchar 512 k \<Longrightarrow> game_fits g \<Longrightarrow> game_values k g = Some (k, g)"
  by (simp add: game_values_def game_fits_def to_varchar_fits winner_value_fits)

lemma scores_fit_fields [simp]:
  "scores_fit (g\<lparr>team1 := t1\<rparr>) = scores_fit g" "scores_fit (g\<lparr>team2 := t2\<rparr>) = scores_fit g"
  "scores_fit (g\<lparr>winner := w\<rparr>) = scores_fit g" "scores_fit (g\<lparr>completed := c\<rparr>) = scores_fit g"
  "scores_fit (g\<lparr>end_time := t\<rparr>) = scores_fit g"
  by (simp_all add: scores_fit_def)

lemma game_values_in:
  assumes "game_values k g = Some (k', g')"
  shows "in_varchar 512 k'" and "game_fits g'" and "sets g' = sets g"
    and "completed g' = completed g" and "start_time g' = start_time g"
    and "end_time g' = end_time g"
  using assms
  by (auto simp: game_values_def game_fits_def split: option.splits if_splits
      dest: to_varchar_in winner_value_in)

lemma list_all_update: "P (k, v) \<Longrightarrow> list_all P al \<Longrightarrow> list_all P (AList.update k v al)"
  by (induction al) auto

lemma scores_fit_sets:
  "scores_fit g =
     ((case map_of (sets g) ''set1'' of None \<Rightarrow> True
       | Some s \<Rightarrow> in_integer (team1_score s) \<and> in_integer (team2_score s)) \<and>
      (case map_of (sets g) ''set2'' of None \<Rightarrow> True
       | Some s \<Rightarrow> in_integer (team1_score s) \<and> in_integer (team2_score s)))"
  by (simp add: scores_fit_def set_numbers_eq set_key_of_1 set_key_of_2)

lemma upsert_set_rows_ok:
  "scores_fit g \<Longrightarrow> list_all set_row_ok rows \<Longrightarrow> list_all set_row_ok (upsert_set_rows g rows)"
  by (auto simp: upsert_set_rows_def set_numbers_eq set_key_of_1 set_key_of_2 scores_fit_sets
      set_row_ok_def intro!: list_all_update split: option.splits)

lemma saved_row_ok:
  assumes "in_varchar 512 k" and "game_fits g" and "\<And>r. old = Some r \<Longrightarrow> game_row_ok (k, r)"
  shows "game_row_ok
     (k, (upsert_game_row old g)\<lparr>set_rows := upsert_set_rows g (set_rows (upsert_game_row old g))\<rparr>)"
proof (cases old)
  case None
  have "list_all set_row_ok (upsert_set_rows g [])"
    using assms(2) by (intro upsert_set_rows_ok) (simp_all add: game_fits_def)
  with assms(1) assms(2) None show ?thesis
    by (simp add: game_row_ok_def upsert_game_row_def game_fits_def)
next
  case (Some r)
  with assms(3) have r: "game_row_ok (k, r)" by simp
  then have "list_all set_row_ok (upsert_set_rows g (set_rows r))"
    using assms(2) by (intro upsert_set_rows_ok) (simp_all add: game_fits_def game_row_ok_def)
  with assms(2) r Some show ?thesis
    by (simp add: game_row_ok_def upsert_game_row_def game_fits_def)
qed

lemma stored_row_ok: "map_of (games_tbl d) k = Some r \<Longrightarrow> game_row_ok (k, r)"
  using games_rows_ok [of d] by (auto simp: list_all_iff dest!: map_of_SomeD)

lemma save_game_NoFault:
  assumes "game_values k g = Some (k', g')"
  shows "fst (save_game NoFault d k g) = Inr True"
    and "games_tbl (snd (save_game NoFault d k g)) =
           AList.update k'
             ((upsert_game_row (map_of (games_tbl d) k') g')
                \<lparr>set_rows := upsert_set_rows g'
                              (set_rows (upsert_game_row (map_of (games_tbl d) k') g'))\<rparr>)
             (games_tbl d)"
    and "teams_tbl (snd (save_game NoFault d k g)) = teams_tbl d"
proof -
  let ?row = "(upsert_game_row (map_of (games_tbl d) k') g')
                \<lparr>set_rows := upsert_set_rows g'
                              (set_rows (upsert_game_row (map_of (games_tbl d) k') g'))\<rparr>"
  have "game_row_ok (k', ?row)"
    by (rule saved_row_ok [OF game_values_in(1) [OF assms] game_values_in(2) [OF assms]])
       (simp add: stored_row_ok)
  then have ok: "list_all game_row_ok (AList.update k' ?row (games_tbl d))"
    by (intro list_all_update games_rows_ok)
  have eq: "save_game NoFault d k g = (Inr True, put_games d (AList.update k' ?row (games_tbl d)))"
    by (simp add: save_game_def assms Let_def)
  show "fst (save_game NoFault d k g) = Inr True" by (simp add: eq)
  show "games_tbl (snd (save_game NoFault d k g)) = AList.update k' ?row (games_tbl d)"
    by (simp add: eq put_games_tbl(1) [OF ok])
  show "teams_tbl (snd (save_game NoFault d k g)) = teams_tbl d"
    by (simp add: eq put_games_tbl(2) [OF ok])
qed

lemma save_game_refused: "game_values k g = None \<Longrightarrow> save_game NoFault d k g = (Inr False, d)"
  by (simp add: save_game_def)

lemma save_game_teams: "teams_tbl (snd (save_game f d k g)) = teams_tbl d"
proof (cases f)
  case NoFault
  show ?thesis
  proof (cases "game_values k g")
    case None
    with NoFault show ?thesis by (simp add: save_game_refused)
  next
    case (Some kg)
    with NoFault show ?thesis by (cases kg) (simp add: save_game_NoFault(3))
  qed
qed (simp_all add: save_game_def)

lemma load_after_save:
  assumes "game_values k g = Some (k', g')"
  shows "map_of (load_all_games (snd (save_game NoFault d k g))) k'' =
     (if k'' = k' then Some (saved_game (map_of (games_tbl d) k') g')
      else map_of (load_all_games d) k'')"
  by (simp add: save_game_NoFault(2) [OF assms] map_of_load_all_games update_conv' saved_game_def)

lemma row_or_zero_ok:
  "game_row_ok (k, r) \<Longrightarrow>
   in_integer (team1_score (row_or_zero r sn)) \<and> in_integer (team2_score (row_or_zero r sn))"
  by (auto simp: row_or_zero_def game_row_ok_def list_all_iff set_row_ok_def zero_set_def
      in_integer_def split: option.splits dest!: map_of_SomeD)

lemma loaded_fits:
  assumes "map_of (games_tbl d) k = Some r"
  shows "in_varchar 512 k" and "game_fits (load_game r)"
proof -
  note ok = stored_row_ok [OF assms]
  then show "in_varchar 512 k" by (simp add: game_row_ok_def)
  show "game_fits (load_game r)"
    using ok row_or_zero_ok [OF ok, of 1] row_or_zero_ok [OF ok, of 2]
    by (simp add: game_fits_def load_game_eq scores_fit_sets game_row_ok_def)
qed

lemma saved_game_existing:
  "map_of (sets g) ''set1'' = Some a \<Longrightarrow> map_of (sets g) ''set2'' = Some b \<Longrightarrow>
   saved_game (Some r) g =
     \<lparr>team1 = team1_name r, team2 = team2_name r,
      sets = [(''set1'', a), (''set2'', b)],
      completed = completed g, winner = winner g,
      start_time = start_time_col r, end_time = end_time g\<rparr>"
  by (simp add: saved_game_def load_game_eq row_or_zero_def upsert_set_rows_1 upsert_set_rows_2
      upsert_game_row_def)

lemma saved_game_new:
  "map_of (sets g) ''set1'' = Some a \<Longrightarrow> map_of (sets g) ''set2'' = Some b \<Longrightarrow>
   saved_game None g =
     \<lparr>team1 = team1 g, team2 = team2 g,
      sets = [(''set1'', a), (''set2'', b)],
      completed = completed g, winner = winner g,
      start_time = start_time g, end_time = end_time g\<rparr>"
  by (simp add: saved_game_def load_game_eq row_or_zero_def upsert_set_rows_1 upsert_set_rows_2
      upsert_game_row_def)

lemma one_game_db_tbl:
  assumes "in_integer (team1_score a)" "in_integer (team2_score a)"
    "in_integer (team1_score b)" "in_integer (team2_score b)"
  shows "games_tbl (one_game_db c a b) = [(''k'', one_game_row c a b)]"
    and "teams_tbl (one_game_db c a b) = []"
  using assms
  by (simp_all add: one_game_db_def db_of_tbl game_row_ok_def one_game_row_def in_varchar_def
      set_row_ok_def)

lemma load_one_game_db:
  assumes "in_integer (team1_score a)" "in_integer (team2_score a)"
    "in_integer (team1_score b)" "in_integer (team2_score b)"
  shows "load_all_games (one_game_db c a b) = [(''k'', load_game (one_game_row c a b))]"
  by (simp add: load_all_games_def one_game_db_tbl(1) [OF assms])

lemma load_one_game_row:
  "load_game (one_game_row c a b) =
     \<lparr>team1 = ''A'', team2 = ''B'', sets = [(''set1'', a), (''set2'', b)],
      completed = c, winner = None, start_time = Some 3, end_time = None\<rparr>"
  by (simp add: load_game_eq one_game_row_def row_or_zero_def)

subsection \<open>The writes to table teams\<close>

lemma team_values_in: "team_values n p1 p2 pl = Some row \<Longrightarrow> team_row_ok row"
  by (auto simp: team_values_def team_row_ok_def split: option.splits dest: to_varchar_in)

lemma team_values_fits:
  "in_varchar 255 n \<Longrightarrow> in_varchar 255 p1 \<Longrightarrow> in_varchar 255 p2 \<Longrightarrow> in_varchar 1 pl \<Longrightarrow>
   team_values n p1 p2 pl = Some (n, \<lparr>player1 = p1, player2 = p2, pool = pl\<rparr>)"
  by (simp add: team_values_def to_varchar_fits)

lemma save_team_committed:
  assumes "team_values n p1 p2 pl = Some row" and "fst row \<notin> fst ` set (teams_tbl d)"
  shows "fst (save_team NoFault d n p1 p2 pl) = Inr True"
    and "teams_tbl (snd (save_team NoFault d n p1 p2 pl)) = teams_tbl d @ [row]"
    and "games_tbl (snd (save_team NoFault d n p1 p2 pl)) = games_tbl d"
proof -
  have ok: "list_all team_row_ok (teams_tbl d @ [row])"
    using teams_rows_ok [of d] team_values_in [OF assms(1)] by simp
  have eq: "save_team NoFault d n p1 p2 pl = (Inr True, put_teams d (teams_tbl d @ [row]))"
    using assms by (simp add: save_team_def)
  show "fst (save_team NoFault d n p1 p2 pl) = Inr True" by (simp add: eq)
  show "teams_tbl (snd (save_team NoFault d n p1 p2 pl)) = teams_tbl d @ [row]"
    by (simp add: eq put_teams_tbl(1) [OF ok])
  show "games_tbl (snd (save_team NoFault d n p1 p2 pl)) = games_tbl d"
    by (simp add: eq put_teams_tbl(2) [OF ok])
qed

lemma save_team_not_committed:
  "f \<noteq> NoFault \<or> team_values n p1 p2 pl = None \<or>
   (\<exists>row. team_values n p1 p2 pl = Some row \<and> fst row \<in> fst ` set (teams_tbl d)) \<Longrightarrow>
   snd (save_team f d n p1 p2 pl) = d"
  by (cases f) (fastforce simp: save_team_def image_iff)+

lemma save_team_games: "games_tbl (snd (save_team f d n p1 p2 pl)) = games_tbl d"
proof (cases f)
  case NoFault
  show ?thesis
  proof (cases "team_values n p1 p2 pl")
    case None
    then show ?thesis by (simp add: save_team_not_committed)
  next
    case (Some row)
    show ?thesis
    proof (cases "fst row \<in> fst ` set (teams_tbl d)")
      case True
      with Some show ?thesis by (simp add: save_team_not_committed)
    next
      case False
      with Some NoFault show ?thesis by (simp add: save_team_committed(3))
    qed
  qed
qed (simp_all add: save_team_not_committed)

lemma delete_team_tbl:
  "teams_tbl (snd (delete_team f d n)) =
     (if f = NoFault then filter (\<lambda>row. fst row \<noteq> n) (teams_tbl d) else teams_tbl d)"
  "games_tbl (snd (delete_team f d n)) = games_tbl d"
proof -
  have ok: "list_all team_row_ok (filter (\<lambda>row. fst row \<noteq> n) (teams_tbl d))"
    using teams_rows_ok [of d] by (simp add: list_all_iff)
  show "teams_tbl (snd (delete_team f d n)) =
     (if f = NoFault then filter (\<lambda>row. fst row \<noteq> n) (teams_tbl d) else teams_tbl d)"
    by (cases f) (simp_all add: delete_team_def put_teams_tbl(1) [OF ok])
  show "games_tbl (snd (delete_team f d n)) = games_tbl d"
    by (cases f) (simp_all add: delete_team_def put_teams_tbl(2) [OF ok])
qed

lemma delete_all_data_NoFault: "delete_all_data NoFault d = (Inr True, empty_db)"
  by (simp add: delete_all_data_def empty_db_def)

lemma env0_simps: "fault env0 = NoFault" "stamp env0 = ''s''" "now env0 = 9"
  by (simp_all add: env0_def)

section \<open>The endpoints on a stored game\<close>

lemma in_set_update:
  "x \<in> set (AList.update k v al) \<Longrightarrow> x = (k, v) \<or> x \<in> set al"
  by (induction al) (auto split: if_splits)

lemma outcome_db_of_save:
  "fst (snd (case p of (Inl err, d') \<Rightarrow> (Inl err, d', []) | (Inr ok, d') \<Rightarrow> (f ok d', d', h ok d')))
     = snd p"
  by (cases p) (auto split: sum.splits)

lemma outcome_of_save:
  "fst p = Inr b \<Longrightarrow>
   (case p of (Inl err, d') \<Rightarrow> (Inl err, d', []) | (Inr ok, d') \<Rightarrow> F ok d') = F b (snd p)"
  by (cases p) simp

lemma save_game_fst:
  "fst (save_game f d k g) =
     (case f of
        ConnectFault \<Rightarrow> Inl DatabaseError
      | StatementFault \<Rightarrow> Inr False
      | NoFault \<Rightarrow> Inr (game_values k g \<noteq> None))"
proof (cases f)
  case NoFault
  then show ?thesis
    by (cases "game_values k g") (auto simp: save_game_refused save_game_NoFault(1))
qed (simp_all add: save_game_def)

lemma save_game_unchanged:
  "f \<noteq> NoFault \<or> game_values k g = None \<Longrightarrow> snd (save_game f d k g) = d"
  by (cases f) (auto simp: save_game_def)

lemma spec_winner_cases:
  "spec_winner t1 t2 ss = t1 \<or> spec_winner t1 t2 ss = t2 \<or> spec_winner t1 t2 ss = ''Split''"
  by (simp add: spec_winner_def split: prod.splits)

lemma spec_winner_fits:
  "in_varchar 255 t1 \<Longrightarrow> in_varchar 255 t2 \<Longrightarrow> in_varchar 255 (spec_winner t1 t2 ss)"
  using spec_winner_cases [of t1 t2 ss] by (auto simp: in_varchar_def)

lemma complete_game_absent:
  "map_of (load_all_games d) k = None \<Longrightarrow>
   complete_game e d k = (Inl (HTTPException 404 ''Game not found''), d, [])"
  by (simp add: complete_game_def)

lemma complete_game_present:
  assumes "map_of (load_all_games d) k = Some g"
  shows "\<exists>a b. map_of (sets g) ''set1'' = Some a \<and> map_of (sets g) ''set2'' = Some b \<and>
     complete_game e d k =
       (case save_game (fault e) d k
               (g\<lparr>winner := Some (spec_winner (team1 g) (team2 g) [a, b]), completed := True,
                  end_time := Some (now e)\<rparr>) of
          (Inl err, d') \<Rightarrow> (Inl err, d', [])
        | (Inr ok, d') \<Rightarrow>
            (Inr (WinnerResp (spec_winner (team1 g) (team2 g) [a, b])), d',
             [GameCompleted (load_all_games d')]))"
proof -
  from assms obtain r where r: "map_of (games_tbl d) k = Some r" and g: "g = load_game r"
    by (auto simp: map_of_load_all_games)
  let ?a = "row_or_zero r 1" and ?b = "row_or_zero r 2"
  have s1: "map_of (sets g) ''set1'' = Some ?a" and s2: "map_of (sets g) ''set2'' = Some ?b"
    by (simp_all add: g load_game_eq)
  have cnt: "count_sets g set_numbers (0, 0) = Inr (spec_set_wins [?a, ?b])"
    by (simp add: g count_sets_loaded)
  obtain w1 w2 where w: "spec_set_wins [?a, ?b] = (w1, w2)"
    by (cases "spec_set_wins [?a, ?b]")
  have weq: "spec_winner (team1 g) (team2 g) [?a, ?b] =
      (if w1 > w2 then team1 g else if w2 > w1 then team2 g else ''Split'')"
    using w by (simp add: spec_winner_def)
  have "complete_game e d k =
       (case save_game (fault e) d k
               (g\<lparr>winner := Some (spec_winner (team1 g) (team2 g) [?a, ?b]), completed := True,
                  end_time := Some (now e)\<rparr>) of
          (Inl err, d') \<Rightarrow> (Inl err, d', [])
        | (Inr ok, d') \<Rightarrow>
            (Inr (WinnerResp (spec_winner (team1 g) (team2 g) [?a, ?b])), d',
             [GameCompleted (load_all_games d')]))"
    unfolding weq using assms cnt w by (auto simp: complete_game_def Let_def)
  with s1 s2 show ?thesis by blast
qed

lemma saved_game_loaded_fields:
  assumes "g' = (load_game r)\<lparr>winner := w, completed := c, end_time := t\<rparr>"
  shows "saved_game (Some r) g' = g'"
proof -
  have s: "map_of (sets g') ''set1'' = Some (row_or_zero r 1)"
          "map_of (sets g') ''set2'' = Some (row_or_zero r 2)"
    by (simp_all add: assms load_game_eq)
  show ?thesis
    by (simp add: saved_game_existing [OF s]) (simp add: assms load_game_eq)
qed

lemma complete_game_result:
  assumes g: "map_of (load_all_games d) k = Some g"
    and a: "map_of (sets g) ''set1'' = Some a" and b: "map_of (sets g) ''set2'' = Some b"
    and w: "w = spec_winner (team1 g) (team2 g) [a, b]"
    and f: "fault e \<noteq> ConnectFault"
  shows "fst (complete_game e d k) = Inr (WinnerResp w)"
    and "map_of (load_all_games (fst (snd (complete_game e d k)))) k' =
           (if k' = k \<and> fault e = NoFault
            then Some (g\<lparr>winner := Some w, completed := True, end_time := Some (now e)\<rparr>)
            else map_of (load_all_games d) k')"
proof -
  from g obtain r where r: "map_of (games_tbl d) k = Some r" and gr: "g = load_game r"
    by (auto simp: map_of_load_all_games)
  let ?g' = "g\<lparr>winner := Some w, completed := True, end_time := Some (now e)\<rparr>"
  from complete_game_present [OF g, of e] a b w
  have eq: "complete_game e d k =
       (case save_game (fault e) d k ?g' of
          (Inl err, d') \<Rightarrow> (Inl err, d', [])
        | (Inr ok, d') \<Rightarrow> (Inr (WinnerResp w), d', [GameCompleted (load_all_games d')]))"
    by auto
  have fits: "game_fits g" and key: "in_varchar 512 k"
    using loaded_fits [OF r] by (simp_all add: gr)
  then have "game_fits ?g'"
    by (simp add: game_fits_def w spec_winner_fits)
  with key have vals: "game_values k ?g' = Some (k, ?g')"
    by (rule game_values_fits)
  have "\<exists>ok. fst (save_game (fault e) d k ?g') = Inr ok"
    using f by (cases "fault e") (auto simp: save_game_fst)
  then obtain ok where ok: "fst (save_game (fault e) d k ?g') = Inr ok" ..
  show "fst (complete_game e d k) = Inr (WinnerResp w)"
    unfolding eq by (simp add: outcome_of_save [OF ok])
  have sv: "saved_game (Some r) ?g' = ?g'"
    by (rule saved_game_loaded_fields) (simp add: gr)
  have db: "fst (snd (complete_game e d k)) = snd (save_game (fault e) d k ?g')"
    unfolding eq by (rule outcome_db_of_save)
  show "map_of (load_all_games (fst (snd (complete_game e d k)))) k' =
           (if k' = k \<and> fault e = NoFault then Some ?g' else map_of (load_all_games d) k')"
  proof (cases "fault e")
    case NoFault
    then show ?thesis by (simp add: db load_after_save [OF vals] r sv)
  next
    case ConnectFault
    with f show ?thesis by simp
  next
    case StatementFault
    then show ?thesis by (simp add: db save_game_unchanged)
  qed
qed

lemma loaded_game_sets:
  "map_of (load_all_games d) k = Some g \<Longrightarrow>
   \<exists>a b. map_of (sets g) ''set1'' = Some a \<and> map_of (sets g) ''set2'' = Some b"
  by (auto simp: map_of_load_all_games load_game_eq)

section \<open>Completing a game: the winner\<close>

text \<open>
  C1. For every stored game, \<^verbatim>\<open>complete_game\<close> answers with the winner that the
  specification's rule gives for the scores of set 1 and set 2 (strictly higher score
  wins the set, strictly more set wins takes the game, equal set wins give
  \<^verbatim>\<open>"Split"\<close>), unless the database connection cannot be opened; and when the write is
  committed, that winner is the one stored under the game's key.
\<close>

theorem complete_game_winner:
  assumes "map_of (load_all_games d) game_key = Some g"
  shows "\<exists>a b. map_of (sets g) ''set1'' = Some a \<and> map_of (sets g) ''set2'' = Some b \<and>
           (fault e \<noteq> ConnectFault \<longrightarrow>
              fst (complete_game e d game_key) =
                Inr (WinnerResp (spec_winner (team1 g) (team2 g) [a, b]))) \<and>
           (fault e = NoFault \<longrightarrow>
              map_option winner
                (map_of (load_all_games (fst (snd (complete_game e d game_key)))) game_key) =
                Some (Some (spec_winner (team1 g) (team2 g) [a, b])))"
proof -
  from loaded_game_sets [OF assms] obtain a b where
    a: "map_of (sets g) ''set1'' = Some a" and b: "map_of (sets g) ''set2'' = Some b"
    by blast
  let ?w = "spec_winner (team1 g) (team2 g) [a, b]"
  have resp: "fst (complete_game e d game_key) = Inr (WinnerResp ?w)" if "fault e \<noteq> ConnectFault"
    by (rule complete_game_result(1) [OF assms a b refl that])
  have stored: "map_option winner
      (map_of (load_all_games (fst (snd (complete_game e d game_key)))) game_key) = Some (Some ?w)"
    if "fault e = NoFault"
  proof -
    from that have "fault e \<noteq> ConnectFault" by simp
    from complete_game_result(2) [OF assms a b refl this, of game_key] that
    show ?thesis by simp
  qed
  show ?thesis using a b resp stored by blast
qed

text \<open>The two games of the specification: 21-19 and 18-21 is a split, 21-15 and 21-18 is
  won by team 1.\<close>

theorem complete_game_winner_witness:
  "fst (complete_game \<lparr>fault = NoFault, stamp = ''s'', now = 9\<rparr>
         (one_game_db False \<lparr>team1_score = 21, team2_score = 19\<rparr>
                            \<lparr>team1_score = 18, team2_score = 21\<rparr>) ''k'')
     = Inr (WinnerResp ''Split'') \<and>
   fst (complete_game \<lparr>fault = NoFault, stamp = ''s'', now = 9\<rparr>
         (one_game_db False \<lparr>team1_score = 21, team2_score = 15\<rparr>
                            \<lparr>team1_score = 21, team2_score = 18\<rparr>) ''k'')
     = Inr (WinnerResp ''A'')"
  using
    complete_game_winner [of
      "one_game_db False \<lparr>team1_score = 21, team2_score = 19\<rparr> \<lparr>team1_score = 18, team2_score = 21\<rparr>"
      "''k''"
      "load_game (one_game_row False \<lparr>team1_score = 21, team2_score = 19\<rparr>
                                     \<lparr>team1_score = 18, team2_score = 21\<rparr>)"
      "\<lparr>fault = NoFault, stamp = ''s'', now = 9\<rparr>"]
    complete_game_winner [of
      "one_game_db False \<lparr>team1_score = 21, team2_score = 15\<rparr> \<lparr>team1_score = 21, team2_score = 18\<rparr>"
      "''k''"
      "load_game (one_game_row False \<lparr>team1_score = 21, team2_score = 15\<rparr>
                                     \<lparr>team1_score = 21, team2_score = 18\<rparr>)"
      "\<lparr>fault = NoFault, stamp = ''s'', now = 9\<rparr>"]
  by (simp add: load_one_game_db load_one_game_row spec_winner_def spec_set_wins_def
      in_integer_def)

section \<open>Adjusting a score\<close>

lemma get_put_score:
  "get_score s f = Some c \<Longrightarrow> get_score (put_score s f v) f = Some v"
  by (auto simp: get_score_def put_score_def split: if_splits)

lemma get_score_valid:
  "team \<in> {''team1'', ''team2''} \<Longrightarrow>
   get_score s (team @ ''_score'') = Some (if team = ''team1'' then team1_score s else team2_score s)"
  by (auto simp: get_score_def)

lemma sets_lookup_loaded:
  "set_key \<in> {''set1'', ''set2''} \<Longrightarrow>
   map_of (sets (load_game r)) set_key =
     Some (if set_key = ''set1'' then row_or_zero r 1 else row_or_zero r 2)"
  by (auto simp: load_game_eq)

lemma update_loaded_sets:
  "set_key \<in> {''set1'', ''set2''} \<Longrightarrow>
   \<exists>a b. map_of (AList.update set_key x (sets (load_game r))) ''set1'' = Some a \<and>
         map_of (AList.update set_key x (sets (load_game r))) ''set2'' = Some b \<and>
         AList.update set_key x (sets (load_game r)) = [(''set1'', a), (''set2'', b)]"
  by (auto simp: load_game_eq)

lemma saved_game_loaded_update:
  assumes r: "map_of (games_tbl d) game_key = Some r" and sk: "set_key \<in> {''set1'', ''set2''}"
  shows "saved_game (Some r) ((load_game r)\<lparr>sets := AList.update set_key x (sets (load_game r))\<rparr>)
     = (load_game r)\<lparr>sets := AList.update set_key x (sets (load_game r))\<rparr>"
proof -
  from update_loaded_sets [OF sk, of x r] obtain a b where
    ab: "map_of (AList.update set_key x (sets (load_game r))) ''set1'' = Some a"
        "map_of (AList.update set_key x (sets (load_game r))) ''set2'' = Some b"
        "AList.update set_key x (sets (load_game r)) = [(''set1'', a), (''set2'', b)]"
    by blast
  show ?thesis
    by (subst saved_game_existing [where a = a and b = b])
       (simp_all add: ab, simp add: load_game_eq)
qed

lemma update_score_eq:
  assumes "map_of (load_all_games d) game_key = Some g" and "\<not> completed g"
    and "map_of (sets g) set_key = Some s"
    and "get_score s (team @ ''_score'') = Some current"
  shows "update_score e d game_key set_key team delta =
     (case save_game (fault e) d game_key
             (g\<lparr>sets := AList.update set_key
                (put_score s (team @ ''_score'') (max 0 (current + delta))) (sets g)\<rparr>) of
        (Inl err, d') \<Rightarrow> (Inl err, d', [])
      | (Inr ok, d') \<Rightarrow>
          (case map_of (load_all_games d') game_key of
             None \<Rightarrow> (Inl (KeyError game_key), d', [ScoreUpdated game_key (load_all_games d')])
           | Some g2 \<Rightarrow> (Inr (ScoreUpdatedResp g2), d', [ScoreUpdated game_key (load_all_games d')])))"
  unfolding update_score_def Let_def assms option.case
  using assms(2) by simp

lemma loaded_set_key:
  "map_of (sets (load_game r)) set_key = Some s \<Longrightarrow> set_key \<in> {''set1'', ''set2''}"
  by (auto simp: load_game_eq split: if_splits)

lemma updated_game_fits:
  assumes r: "map_of (games_tbl d) k = Some r"
    and s: "map_of (sets (load_game r)) set_key = Some s"
    and c: "get_score s f = Some current"
  shows "game_fits ((load_game r)\<lparr>sets := AList.update set_key (put_score s f v)
                                             (sets (load_game r))\<rparr>) = in_integer v"
proof -
  note ok = stored_row_ok [OF r]
  have base: "in_varchar 255 (team1_name r)" "in_varchar 255 (team2_name r)"
    "case winner_col r of None \<Rightarrow> True | Some w \<Rightarrow> in_varchar 255 w"
    using ok by (simp_all add: game_row_ok_def)
  from s have sk: "set_key = ''set1'' \<and> s = row_or_zero r 1 \<or>
                   set_key = ''set2'' \<and> s = row_or_zero r 2"
    by (auto simp: load_game_eq split: if_splits)
  from c have f: "f = ''team1_score'' \<or> f = ''team2_score''"
    by (auto simp: get_score_def split: if_splits)
  from sk f show ?thesis
    using base row_or_zero_ok [OF ok, of 1] row_or_zero_ok [OF ok, of 2]
    by (auto simp: game_fits_def scores_fit_sets load_game_eq put_score_def)
qed

text \<open>What \<^verbatim>\<open>update_score\<close> does on a stored, uncompleted game: with a committed
  write, and with a write that fails inside the \<^verbatim>\<open>try\<close>.\<close>

lemma update_score_committed:
  assumes g: "map_of (load_all_games d) game_key = Some g" and nc: "\<not> completed g"
    and s: "map_of (sets g) set_key = Some s"
    and c: "get_score s (team @ ''_score'') = Some current"
    and f: "fault e = NoFault" and v: "in_integer (max 0 (current + delta))"
    and g': "g' = g\<lparr>sets := AList.update set_key
                (put_score s (team @ ''_score'') (max 0 (current + delta))) (sets g)\<rparr>"
  shows "update_score e d game_key set_key team delta =
           (Inr (ScoreUpdatedResp g'), snd (save_game NoFault d game_key g'),
            [ScoreUpdated game_key (load_all_games (snd (save_game NoFault d game_key g')))])"
    and "map_of (load_all_games (snd (save_game NoFault d game_key g'))) k' =
           (if k' = game_key then Some g' else map_of (load_all_games d) k')"
proof -
  from g obtain r where r: "map_of (games_tbl d) game_key = Some r" and gr: "g = load_game r"
    by (auto simp: map_of_load_all_games)
  have sk: "set_key \<in> {''set1'', ''set2''}"
    using s unfolding gr by (rule loaded_set_key)
  have "game_fits g'"
    using updated_game_fits [OF r s [unfolded gr] c] v by (simp add: g' gr)
  with loaded_fits(1) [OF r] have vals: "game_values game_key g' = Some (game_key, g')"
    by (rule game_values_fits)
  have sv: "saved_game (Some r) g' = g'"
    unfolding g' gr by (rule saved_game_loaded_update [OF r sk])
  show l: "map_of (load_all_games (snd (save_game NoFault d game_key g'))) k' =
           (if k' = game_key then Some g' else map_of (load_all_games d) k')" for k'
    by (simp add: load_after_save [OF vals] r sv)
  have ok: "fst (save_game NoFault d game_key g') = Inr True"
    by (rule save_game_NoFault(1) [OF vals])
  show "update_score e d game_key set_key team delta =
           (Inr (ScoreUpdatedResp g'), snd (save_game NoFault d game_key g'),
            [ScoreUpdated game_key (load_all_games (snd (save_game NoFault d game_key g')))])"
    unfolding update_score_eq [OF g nc s c] g' [symmetric] f
    by (simp add: outcome_of_save [OF ok] l)
qed

lemma update_score_not_committed:
  assumes g: "map_of (load_all_games d) game_key = Some g" and nc: "\<not> completed g"
    and s: "map_of (sets g) set_key = Some s"
    and c: "get_score s (team @ ''_score'') = Some current"
    and f: "fault e = StatementFault \<or> fault e = NoFault \<and> \<not> in_integer (max 0 (current + delta))"
  shows "update_score e d game_key set_key team delta =
           (Inr (ScoreUpdatedResp g), d, [ScoreUpdated game_key (load_all_games d)])"
proof -
  from g obtain r where r: "map_of (games_tbl d) game_key = Some r" and gr: "g = load_game r"
    by (auto simp: map_of_load_all_games)
  let ?g' = "g\<lparr>sets := AList.update set_key
                (put_score s (team @ ''_score'') (max 0 (current + delta))) (sets g)\<rparr>"
  have nofit: "game_values game_key ?g' = None" if "\<not> in_integer (max 0 (current + delta))"
  proof -
    have "\<not> game_fits ?g'"
      using updated_game_fits [OF r s [unfolded gr] c] that by (simp add: gr)
    then have "\<not> scores_fit ?g'"
      using loaded_fits(2) [OF r] by (simp add: game_fits_def gr)
    then show ?thesis
      by (simp add: game_values_def split: option.splits)
  qed
  have ok: "fst (save_game (fault e) d game_key ?g') = Inr False"
    using f nofit by (auto simp: save_game_fst)
  have un: "snd (save_game (fault e) d game_key ?g') = d"
    using f nofit by (intro save_game_unchanged) auto
  show ?thesis
    unfolding update_score_eq [OF g nc s c]
    by (simp add: outcome_of_save [OF ok] un g)
qed

lemma update_score_failures:
  assumes g: "map_of (load_all_games d) game_key = Some g" and nc: "\<not> completed g"
    and s: "map_of (sets g) set_key = Some s"
    and c: "get_score s (team @ ''_score'') = Some current"
  shows "fst (update_score e d game_key set_key team delta) = Inl err \<Longrightarrow> err = DatabaseError"
proof (cases "fault e")
  case NoFault
  assume "fst (update_score e d game_key set_key team delta) = Inl err"
  then show ?thesis
    using update_score_committed(1) [OF g nc s c NoFault _ refl, of delta]
      update_score_not_committed [OF g nc s c, of e delta] NoFault
    by (cases "in_integer (max 0 (current + delta))") simp_all
next
  case ConnectFault
  assume "fst (update_score e d game_key set_key team delta) = Inl err"
  then show ?thesis
    unfolding update_score_eq [OF g nc s c] using ConnectFault
    by (simp add: save_game_def)
next
  case StatementFault
  assume "fst (update_score e d game_key set_key team delta) = Inl err"
  then show ?thesis
    using update_score_not_committed [OF g nc s c, of e delta] StatementFault by simp
qed

text \<open>
  C3. \<^verbatim>\<open>update_score\<close> with a key that no stored game has fails with
  \<open>GameNotFound\<close>, and on a game whose \<^verbatim>\<open>completed\<close> flag is set it fails with
  \<open>GameAlreadyCompleted\<close>; in both cases the database is returned as it was (every score
  of every game unchanged) and nothing is broadcast.
\<close>

theorem update_score_rejects:
  "(map_of (load_all_games d) game_key = None \<longrightarrow>
      update_score e d game_key set_key team delta = (Inl GameNotFound, d, [])) \<and>
   (\<forall>g. map_of (load_all_games d) game_key = Some g \<and> completed g \<longrightarrow>
      update_score e d game_key set_key team delta = (Inl GameAlreadyCompleted, d, []))"
  by (simp add: update_score_def GameNotFound_def GameAlreadyCompleted_def)

theorem update_score_rejects_witness:
  "update_score \<lparr>fault = NoFault, stamp = ''s'', now = 9\<rparr>
      (one_game_db True \<lparr>team1_score = 21, team2_score = 19\<rparr> \<lparr>team1_score = 18, team2_score = 21\<rparr>)
      ''zz'' ''set1'' ''team1'' 1
     = (Inl GameNotFound,
        one_game_db True \<lparr>team1_score = 21, team2_score = 19\<rparr> \<lparr>team1_score = 18, team2_score = 21\<rparr>, []) \<and>
   update_score \<lparr>fault = NoFault, stamp = ''s'', now = 9\<rparr>
      (one_game_db True \<lparr>team1_score = 21, team2_score = 19\<rparr> \<lparr>team1_score = 18, team2_score = 21\<rparr>)
      ''k'' ''set1'' ''team1'' 1
     = (Inl GameAlreadyCompleted,
        one_game_db True \<lparr>team1_score = 21, team2_score = 19\<rparr> \<lparr>team1_score = 18, team2_score = 21\<rparr>, [])"
  using
    update_score_rejects [of
      "one_game_db True \<lparr>team1_score = 21, team2_score = 19\<rparr> \<lparr>team1_score = 18, team2_score = 21\<rparr>"
      "''zz''" "\<lparr>fault = NoFault, stamp = ''s'', now = 9\<rparr>" "''set1''" "''team1''" 1]
    update_score_rejects [of
      "one_game_db True \<lparr>team1_score = 21, team2_score = 19\<rparr> \<lparr>team1_score = 18, team2_score = 21\<rparr>"
      "''k''" "\<lparr>fault = NoFault, stamp = ''s'', now = 9\<rparr>" "''set1''" "''team1''" 1]
  by (simp add: load_one_game_db load_one_game_row in_integer_def)

text \<open>
  A delta of 2147483645 on a score of 3: the sum does not fit the \<^verbatim>\<open>INTEGER\<close> column, the
  write is refused, and the score stays 3.
\<close>

theorem update_score_overflow_counterexample:
  "update_score env0
     (one_game_db False \<lparr>team1_score = 3, team2_score = 0\<rparr> \<lparr>team1_score = 0, team2_score = 0\<rparr>)
     ''k'' ''set1'' ''team1'' 2147483645
   = (Inr (ScoreUpdatedResp
        \<lparr>team1 = ''A'', team2 = ''B'',
         sets = [(''set1'', \<lparr>team1_score = 3, team2_score = 0\<rparr>),
                 (''set2'', \<lparr>team1_score = 0, team2_score = 0\<rparr>)],
         completed = False, winner = None, start_time = Some 3, end_time = None\<rparr>),
      one_game_db False \<lparr>team1_score = 3, team2_score = 0\<rparr> \<lparr>team1_score = 0, team2_score = 0\<rparr>,
      [ScoreUpdated ''k''
        [(''k'',
          \<lparr>team1 = ''A'', team2 = ''B'',
           sets = [(''set1'', \<lparr>team1_score = 3, team2_score = 0\<rparr>),
                   (''set2'', \<lparr>team1_score = 0, team2_score = 0\<rparr>)],
           completed = False, winner = None, start_time = Some 3, end_time = None\<rparr>)]])"
proof -
  let ?d = "one_game_db False \<lparr>team1_score = 3, team2_score = 0\<rparr>
                              \<lparr>team1_score = 0, team2_score = 0\<rparr>"
  let ?g = "\<lparr>team1 = ''A'', team2 = ''B'',
         sets = [(''set1'', \<lparr>team1_score = 3, team2_score = 0\<rparr>),
                 (''set2'', \<lparr>team1_score = 0, team2_score = 0\<rparr>)],
         completed = False, winner = None, start_time = Some 3, end_time = None\<rparr>"
  have l: "load_all_games ?d = [(''k'', ?g)]"
    by (simp add: load_one_game_db load_one_game_row in_integer_def)
  have g: "map_of (load_all_games ?d) ''k'' = Some ?g" by (simp add: l)
  have nc: "\<not> completed ?g" by simp
  have s: "map_of (sets ?g) ''set1'' = Some \<lparr>team1_score = 3, team2_score = 0\<rparr>" by simp
  have c: "get_score \<lparr>team1_score = 3, team2_score = 0\<rparr> (''team1'' @ ''_score'') = Some 3"
    by (simp add: get_score_def)
  have f: "fault env0 = StatementFault \<or>
           fault env0 = NoFault \<and> \<not> in_integer (max 0 (3 + 2147483645))"
    by (simp add: env0_def in_integer_def)
  show ?thesis
    using update_score_not_committed [OF g nc s c f] by (simp add: l)
qed

text \<open>
  C10, as the code has it. \<^verbatim>\<open>update_score\<close> does not restrict \<^verbatim>\<open>delta\<close>: for a stored,
  uncompleted game, a set key among \<^verbatim>\<open>set1\<close>, \<^verbatim>\<open>set2\<close>, a side among \<^verbatim>\<open>team1\<close>,
  \<^verbatim>\<open>team2\<close> and any integer \<^verbatim>\<open>delta\<close>, no validation error is raised (the only failure
  is a connection that cannot be opened); and when \<open>max 0 (current + delta)\<close> fits the
  32-bit score column and the write is committed, the request succeeds and the game
  stored and returned is the old one with the targeted score replaced by
  \<open>max 0 (current + delta)\<close>.
\<close>

theorem update_score_any_delta:
  assumes "map_of (load_all_games d) game_key = Some g" and "\<not> completed g"
    and "set_key \<in> {''set1'', ''set2''}" and "team \<in> {''team1'', ''team2''}"
  shows "\<exists>s current g'.
           map_of (sets g) set_key = Some s \<and>
           get_score s (team @ ''_score'') = Some current \<and>
           (\<forall>err. fst (update_score e d game_key set_key team delta) = Inl err \<longrightarrow>
                  err = DatabaseError) \<and>
           (fault e = NoFault \<and> max 0 (current + delta) \<le> 2147483647 \<longrightarrow>
              fst (update_score e d game_key set_key team delta) = Inr (ScoreUpdatedResp g') \<and>
              g' = g\<lparr>sets := AList.update set_key
                     (put_score s (team @ ''_score'') (max 0 (current + delta))) (sets g)\<rparr> \<and>
              map_of (load_all_games (fst (snd (update_score e d game_key set_key team delta))))
                game_key = Some g' \<and>
              (\<exists>s'. map_of (sets g') set_key = Some s' \<and>
                    get_score s' (team @ ''_score'') = Some (max 0 (current + delta))))"
proof -
  from assms(1) obtain r where r: "map_of (games_tbl d) game_key = Some r" and g: "g = load_game r"
    by (auto simp: map_of_load_all_games)
  obtain s where s: "map_of (sets g) set_key = Some s"
    using sets_lookup_loaded [OF assms(3), of r] g by simp
  obtain current where cur: "get_score s (team @ ''_score'') = Some current"
    using get_score_valid [OF assms(4), of s] by simp
  let ?new = "max 0 (current + delta)"
  let ?g' = "g\<lparr>sets := AList.update set_key (put_score s (team @ ''_score'') ?new) (sets g)\<rparr>"
  have fail: "\<forall>err. fst (update_score e d game_key set_key team delta) = Inl err \<longrightarrow>
                  err = DatabaseError"
    using update_score_failures [OF assms(1) assms(2) s cur] by blast
  have tgt: "\<exists>s'. map_of (sets ?g') set_key = Some s' \<and>
                  get_score s' (team @ ''_score'') = Some ?new"
    using cur by (simp add: update_conv' get_put_score)
  have comm: "fst (update_score e d game_key set_key team delta) = Inr (ScoreUpdatedResp ?g') \<and>
      map_of (load_all_games (fst (snd (update_score e d game_key set_key team delta))))
                game_key = Some ?g'"
    if "fault e = NoFault" and "?new \<le> 2147483647"
  proof -
    from that(2) have v: "in_integer ?new" by (simp add: in_integer_def)
    note c = update_score_committed [OF assms(1) assms(2) s cur that(1) v refl]
    show ?thesis by (simp add: c(1) c(2))
  qed
  from s cur fail tgt comm show ?thesis by blast
qed

text \<open>A delta of -100 on a score of 3 gives 0, a delta of +5 gives 8.\<close>

theorem update_score_any_delta_witness:
  "fst (update_score \<lparr>fault = NoFault, stamp = ''s'', now = 9\<rparr>
         (one_game_db False \<lparr>team1_score = 3, team2_score = 0\<rparr> \<lparr>team1_score = 0, team2_score = 0\<rparr>)
         ''k'' ''set1'' ''team1'' (- 100))
     = Inr (ScoreUpdatedResp
         \<lparr>team1 = ''A'', team2 = ''B'',
          sets = [(''set1'', \<lparr>team1_score = 0, team2_score = 0\<rparr>),
                  (''set2'', \<lparr>team1_score = 0, team2_score = 0\<rparr>)],
          completed = False, winner = None, start_time = Some 3, end_time = None\<rparr>) \<and>
   fst (update_score \<lparr>fault = NoFault, stamp = ''s'', now = 9\<rparr>
         (one_game_db False \<lparr>team1_score = 3, team2_score = 0\<rparr> \<lparr>team1_score = 0, team2_score = 0\<rparr>)
         ''k'' ''set1'' ''team1'' 5)
     = Inr (ScoreUpdatedResp
         \<lparr>team1 = ''A'', team2 = ''B'',
          sets = [(''set1'', \<lparr>team1_score = 8, team2_score = 0\<rparr>),
                  (''set2'', \<lparr>team1_score = 0, team2_score = 0\<rparr>)],
          completed = False, winner = None, start_time = Some 3, end_time = None\<rparr>)"
  using
    update_score_any_delta [of
      "one_game_db False \<lparr>team1_score = 3, team2_score = 0\<rparr> \<lparr>team1_score = 0, team2_score = 0\<rparr>"
      "''k''"
      "load_game (one_game_row False \<lparr>team1_score = 3, team2_score = 0\<rparr>
                                     \<lparr>team1_score = 0, team2_score = 0\<rparr>)"
      "''set1''" "''team1''" "\<lparr>fault = NoFault, stamp = ''s'', now = 9\<rparr>" "- 100"]
    update_score_any_delta [of
      "one_game_db False \<lparr>team1_score = 3, team2_score = 0\<rparr> \<lparr>team1_score = 0, team2_score = 0\<rparr>"
      "''k''"
      "load_game (one_game_row False \<lparr>team1_score = 3, team2_score = 0\<rparr>
                                     \<lparr>team1_score = 0, team2_score = 0\<rparr>)"
      "''set1''" "''team1''" "\<lparr>fault = NoFault, stamp = ''s'', now = 9\<rparr>" 5]
  by (simp add: load_one_game_db load_one_game_row get_score_def put_score_def in_integer_def)

section \<open>Scores are never negative\<close>










lemma create_team_games: "games_tbl (fst (snd (create_team e d n p1 p2 pl))) = games_tbl d"
proof -
  have "fst (snd (create_team e d n p1 p2 pl)) = d \<or>
        fst (snd (create_team e d n p1 p2 pl)) = snd (save_team (fault e) d n p1 p2 pl)"
    by (auto simp: create_team_def Let_def split: prod.splits sum.splits)
  then show ?thesis by (auto simp: save_team_games)
qed

lemma remove_team_games: "games_tbl (fst (snd (remove_team e d n))) = games_tbl d"
proof -
  have "fst (snd (remove_team e d n)) = snd (delete_team (fault e) d n)"
    by (auto simp: remove_team_def split: prod.splits sum.splits)
  then show ?thesis by (simp add: delete_team_tbl(2))
qed

lemma reset_tournament_db:
  "fst (snd (reset_tournament e d)) = (if fault e = NoFault then empty_db else d)"
  by (cases "fault e") (simp_all add: reset_tournament_def delete_all_data_def empty_db_def)



lemma create_game_db:
  "fst (snd (create_game e d t1 t2)) =
     snd (save_game (fault e) d (t1 @ ''_vs_'' @ t2 @ ''_'' @ stamp e)
       \<lparr>team1 = t1, team2 = t2,
        sets = [(''set1'', \<lparr>team1_score = 0, team2_score = 0\<rparr>),
                (''set2'', \<lparr>team1_score = 0, team2_score = 0\<rparr>)],
        completed = False, winner = None, start_time = Some (now e), end_time = None\<rparr>)"
  by (simp add: create_game_def Let_def split: prod.splits sum.splits)



lemma update_score_db:
  "fst (snd (update_score e d k sk t dl)) = d \<or>
   (\<exists>g s c. map_of (load_all_games d) k = Some g \<and> map_of (sets g) sk = Some s \<and>
      get_score s (t @ ''_score'') = Some c \<and>
      fst (snd (update_score e d k sk t dl)) =
        snd (save_game (fault e) d k
          (g\<lparr>sets := AList.update sk (put_score s (t @ ''_score'') (max 0 (c + dl))) (sets g)\<rparr>)))"
  by (auto simp: update_score_def Let_def split: option.splits prod.splits sum.splits)





text \<open>The database after the creation of one game on the empty database.\<close>

lemma new_game_values:
  "in_varchar 255 t1 \<Longrightarrow> in_varchar 255 t2 \<Longrightarrow> in_varchar 512 k \<Longrightarrow>
   game_values k (new_game t1 t2 t) = Some (k, new_game t1 t2 t)"
  by (intro game_values_fits)
     (simp_all add: game_fits_def new_game_def scores_fit_sets in_integer_def)

lemma run_create_one:
  "games_tbl (run empty_db [(env0, CreateGame ''A'' ''B'')]) =
     [(''A_vs_B_s'',
        \<lparr>team1_name = ''A'', team2_name = ''B'', completed_col = False, winner_col = None,
         start_time_col = Some 9, end_time_col = None,
         set_rows = [(1, \<lparr>team1_score = 0, team2_score = 0\<rparr>),
                     (2, \<lparr>team1_score = 0, team2_score = 0\<rparr>)]\<rparr>)]"
proof -
  have vals: "game_values ''A_vs_B_s'' (new_game ''A'' ''B'' 9) =
                Some (''A_vs_B_s'', new_game ''A'' ''B'' 9)"
    by (rule new_game_values) (simp_all add: in_varchar_def)
  have "run empty_db [(env0, CreateGame ''A'' ''B'')] =
        snd (save_game NoFault empty_db ''A_vs_B_s'' (new_game ''A'' ''B'' 9))"
    by (simp add: create_game_db env0_simps new_game_def)
  then show ?thesis
    by (simp add: save_game_NoFault(2) [OF vals] empty_db_tbl)
       (simp add: new_game_def upsert_game_row_def upsert_set_rows_def set_numbers_eq
          set_key_of_1 set_key_of_2)
qed

lemma load_create_one:
  "load_all_games (run empty_db [(env0, CreateGame ''A'' ''B'')]) =
     [(''A_vs_B_s'', new_game ''A'' ''B'' 9)]"
  unfolding load_all_games_def run_create_one
  by (simp add: load_game_eq row_or_zero_def new_game_def)



section \<open>Creating a game\<close>

lemma create_game_eq:
  "create_game e d t1 t2 =
     (case save_game (fault e) d (t1 @ ''_vs_'' @ t2 @ ''_'' @ stamp e) (new_game t1 t2 (now e)) of
        (Inl err, d') \<Rightarrow> (Inl err, d', [])
      | (Inr ok, d') \<Rightarrow>
          (Inr (GameCreated (t1 @ ''_vs_'' @ t2 @ ''_'' @ stamp e) (new_game t1 t2 (now e))), d',
           [GamesUpdated (load_all_games d')]))"
  unfolding create_game_def new_game_def Let_def by (rule refl)

lemma create_game_committed:
  assumes "fault e = NoFault"
    and "t1 @ ''_vs_'' @ t2 @ ''_'' @ stamp e = key"
    and "now e = t"
    and "game_values key (new_game t1 t2 t) = Some (k, g)"
  shows "create_game e d t1 t2 =
           (Inr (GameCreated key (new_game t1 t2 t)),
            snd (save_game NoFault d key (new_game t1 t2 t)),
            [GamesUpdated (load_all_games (snd (save_game NoFault d key (new_game t1 t2 t))))])"
proof -
  have ok: "fst (save_game NoFault d key (new_game t1 t2 t)) = Inr True"
    by (rule save_game_NoFault(1) [OF assms(4)])
  show ?thesis
    unfolding create_game_eq assms(1) assms(2) assms(3) outcome_of_save [OF ok] by (rule refl)
qed

lemma no_http_error_of_save:
  "fst p \<noteq> Inl (HTTPException code detail) \<Longrightarrow>
   fst (case p of (Inl err, d') \<Rightarrow> (Inl err, d', [])
        | (Inr ok, d') \<Rightarrow> (Inr (F ok d'), d', G ok d')) \<noteq> Inl (HTTPException code detail)"
  by (cases p) (auto split: sum.splits)

lemma save_game_no_http_error:
  "fst (save_game f d k g) \<noteq> Inl (HTTPException code detail)"
  by (cases f) (simp_all add: save_game_fst)

lemma create_game_no_http_error:
  "fst (create_game e d t1 t2) \<noteq> Inl (HTTPException code detail)"
  unfolding create_game_eq by (rule no_http_error_of_save) (rule save_game_no_http_error)

lemma saved_new_game: "saved_game None (new_game t1 t2 t) = new_game t1 t2 t"
proof -
  have s: "map_of (sets (new_game t1 t2 t)) ''set1'' = Some \<lparr>team1_score = 0, team2_score = 0\<rparr>"
          "map_of (sets (new_game t1 t2 t)) ''set2'' = Some \<lparr>team1_score = 0, team2_score = 0\<rparr>"
    by (simp_all add: new_game_def)
  show ?thesis
    by (simp add: saved_game_new [OF s]) (simp add: new_game_def)
qed

text \<open>
  With no team registered, \<^verbatim>\<open>create_game\<close> for \<^verbatim>\<open>"A"\<close> against \<^verbatim>\<open>"A"\<close> succeeds,
  stores the game and broadcasts it.
\<close>

theorem create_game_same_team_counterexample:
  "load_all_teams empty_db = [] \<and>
   create_game env0 empty_db ''A'' ''A'' =
     (Inr (GameCreated ''A_vs_A_s'' (new_game ''A'' ''A'' 9)),
      db_of \<lparr>teams_rows = [],
       games_rows = [(''A_vs_A_s'',
         \<lparr>team1_name = ''A'', team2_name = ''A'', completed_col = False, winner_col = None,
          start_time_col = Some 9, end_time_col = None,
          set_rows = [(1, \<lparr>team1_score = 0, team2_score = 0\<rparr>),
                      (2, \<lparr>team1_score = 0, team2_score = 0\<rparr>)]\<rparr>)]\<rparr>,
      [GamesUpdated [(''A_vs_A_s'', new_game ''A'' ''A'' 9)]])"
proof -
  let ?rows = "[(''A_vs_A_s'',
         \<lparr>team1_name = ''A'', team2_name = ''A'', completed_col = False, winner_col = None,
          start_time_col = Some 9, end_time_col = None,
          set_rows = [(1, \<lparr>team1_score = 0, team2_score = 0\<rparr>),
                      (2, \<lparr>team1_score = 0, team2_score = 0\<rparr>)]\<rparr>)]"
  have vals: "game_values ''A_vs_A_s'' (new_game ''A'' ''A'' 9) =
                Some (''A_vs_A_s'', new_game ''A'' ''A'' 9)"
    by (rule new_game_values) (simp_all add: in_varchar_def)
  have key: "''A'' @ ''_vs_'' @ ''A'' @ ''_'' @ stamp env0 = ''A_vs_A_s''"
    by (simp add: env0_simps)
  note c = create_game_committed [OF env0_simps(1) key env0_simps(3) vals, of empty_db]
  have ok: "list_all team_row_ok []" "list_all game_row_ok ?rows"
    by (simp_all add: game_row_ok_def set_row_ok_def in_varchar_def in_integer_def)
  have tbl: "games_tbl (snd (save_game NoFault empty_db ''A_vs_A_s'' (new_game ''A'' ''A'' 9))) =
      ?rows"
    unfolding save_game_NoFault(2) [OF vals] empty_db_tbl
    by (simp add: new_game_def upsert_game_row_def upsert_set_rows_def set_numbers_eq
        set_key_of_1 set_key_of_2)
  have db: "snd (save_game NoFault empty_db ''A_vs_A_s'' (new_game ''A'' ''A'' 9)) =
      db_of \<lparr>teams_rows = [], games_rows = ?rows\<rparr>"
    by (rule db_eqI)
       (simp_all only: tbl save_game_NoFault(3) [OF vals] empty_db_tbl db_of_tbl [OF ok])
  have l: "load_all_games (db_of \<lparr>teams_rows = [], games_rows = ?rows\<rparr>) =
      [(''A_vs_A_s'', new_game ''A'' ''A'' 9)]"
    unfolding load_all_games_def db_of_tbl(2) [OF ok]
    by (simp add: load_game_eq row_or_zero_def new_game_def)
  have "load_all_teams empty_db = []"
    by (simp add: load_all_teams_def empty_db_tbl)
  then show ?thesis
    unfolding c db l by simp
qed

text \<open>
  C4, as the code has it. \<^verbatim>\<open>create_game\<close> tests nothing about its two names: whatever
  they are, equal or unregistered included, it raises no validation error. When the two
  names and the key fit their columns (255 and 512 characters), the key is fresh and the
  write is committed, it answers with the new game (both sets 0-0, not completed, started
  now), stores that game with these two names under the key and broadcasts the reloaded
  games.
\<close>

theorem create_game_no_validation:
  "(\<forall>code detail. fst (create_game e d t1 t2) \<noteq> Inl (HTTPException code detail)) \<and>
   (fault e = NoFault \<and> length t1 \<le> 255 \<and> length t2 \<le> 255 \<and>
    length (t1 @ ''_vs_'' @ t2 @ ''_'' @ stamp e) \<le> 512 \<and>
    map_of (load_all_games d) (t1 @ ''_vs_'' @ t2 @ ''_'' @ stamp e) = None \<longrightarrow>
      fst (create_game e d t1 t2) =
        Inr (GameCreated (t1 @ ''_vs_'' @ t2 @ ''_'' @ stamp e) (new_game t1 t2 (now e))) \<and>
      map_of (load_all_games (fst (snd (create_game e d t1 t2))))
        (t1 @ ''_vs_'' @ t2 @ ''_'' @ stamp e) = Some (new_game t1 t2 (now e)) \<and>
      snd (snd (create_game e d t1 t2)) =
        [GamesUpdated (load_all_games (fst (snd (create_game e d t1 t2))))])"
proof (intro conjI allI impI)
  fix code detail
  show "fst (create_game e d t1 t2) \<noteq> Inl (HTTPException code detail)"
    by (rule create_game_no_http_error)
next
  define key where "key = t1 @ ''_vs_'' @ t2 @ ''_'' @ stamp e"
  let ?g = "new_game t1 t2 (now e)"
  assume "fault e = NoFault \<and> length t1 \<le> 255 \<and> length t2 \<le> 255 \<and>
    length (t1 @ ''_vs_'' @ t2 @ ''_'' @ stamp e) \<le> 512 \<and>
    map_of (load_all_games d) (t1 @ ''_vs_'' @ t2 @ ''_'' @ stamp e) = None"
  then have f: "fault e = NoFault" and len: "length t1 \<le> 255" "length t2 \<le> 255"
    "length key \<le> 512" and fresh: "map_of (games_tbl d) key = None"
    by (simp_all add: map_of_load_all_games key_def)
  have vals: "game_values key ?g = Some (key, ?g)"
    using len by (intro new_game_values) (simp_all add: in_varchar_def)
  note c = create_game_committed [OF f key_def [symmetric] refl vals, of d]
  have l: "map_of (load_all_games (snd (save_game NoFault d key ?g))) key = Some ?g"
    by (simp add: load_after_save [OF vals] fresh saved_new_game)
  show "fst (create_game e d t1 t2) =
      Inr (GameCreated (t1 @ ''_vs_'' @ t2 @ ''_'' @ stamp e) ?g)"
    unfolding key_def [symmetric] by (simp add: c)
  show "map_of (load_all_games (fst (snd (create_game e d t1 t2))))
      (t1 @ ''_vs_'' @ t2 @ ''_'' @ stamp e) = Some ?g"
    unfolding key_def [symmetric] by (simp add: c l)
  show "snd (snd (create_game e d t1 t2)) =
        [GamesUpdated (load_all_games (fst (snd (create_game e d t1 t2))))]"
    by (simp add: c)
qed

theorem create_game_no_validation_witness:
  "fst (create_game env0 empty_db ''A'' ''A'') =
     Inr (GameCreated ''A_vs_A_s'' (new_game ''A'' ''A'' 9)) \<and>
   map_of (load_all_games (fst (snd (create_game env0 empty_db ''A'' ''A'')))) ''A_vs_A_s'' =
     Some (new_game ''A'' ''A'' 9)"
  using create_game_no_validation [of env0 empty_db "''A''" "''A''"]
  by (simp add: env0_simps load_all_games_def empty_db_tbl)

section \<open>Broadcasts and failed writes\<close>

text \<open>
  A write also fails with no fault at all: a name of 256 letters does not fit its column,
  \<^verbatim>\<open>save_game\<close> returns False, and \<^verbatim>\<open>create_game\<close> answers as if the game were stored.
\<close>

lemma create_game_refused_value:
  "fst (create_game env0 empty_db (replicate 256 CHR ''a'') ''B'') =
     Inr (GameCreated (replicate 256 CHR ''a'' @ ''_vs_B_s'')
            (new_game (replicate 256 CHR ''a'') ''B'' 9)) \<and>
   fst (snd (create_game env0 empty_db (replicate 256 CHR ''a'') ''B'')) = empty_db \<and>
   snd (snd (create_game env0 empty_db (replicate 256 CHR ''a'') ''B'')) = [GamesUpdated []]"
proof -
  have t: "to_varchar 255 (replicate 256 CHR ''a'') = None"
    by (simp add: to_varchar_def)
  have v: "game_values k (new_game (replicate 256 CHR ''a'') ''B'' 9) = None" for k
    by (simp add: game_values_def new_game_def t split: option.splits)
  have s: "save_game NoFault empty_db k (new_game (replicate 256 CHR ''a'') ''B'' 9) =
             (Inr False, empty_db)" for k
    by (simp add: save_game_def v)
  have "create_game env0 empty_db (replicate 256 CHR ''a'') ''B'' =
      (Inr (GameCreated (replicate 256 CHR ''a'' @ ''_vs_B_s'')
            (new_game (replicate 256 CHR ''a'') ''B'' 9)), empty_db, [GamesUpdated []])"
    unfolding create_game_eq env0_simps s
    by (simp add: load_all_games_def empty_db_tbl)
  then show ?thesis by simp
qed

text \<open>
  C5 at a failing write. \<^verbatim>\<open>save_game\<close> returns False and the database is as before,
  yet \<^verbatim>\<open>create_game\<close>, \<^verbatim>\<open>update_score\<close> and \<^verbatim>\<open>complete_game\<close> answer with success
  and broadcast.
\<close>

theorem broadcast_after_failed_write:
  "create_game failing_env empty_db ''A'' ''B'' =
     (Inr (GameCreated ''A_vs_B_s'' (new_game ''A'' ''B'' 9)), empty_db, [GamesUpdated []]) \<and>
   update_score failing_env
       (one_game_db False \<lparr>team1_score = 3, team2_score = 0\<rparr> \<lparr>team1_score = 0, team2_score = 0\<rparr>)
       ''k'' ''set1'' ''team1'' 1 =
     (Inr (ScoreUpdatedResp
        (load_game (one_game_row False \<lparr>team1_score = 3, team2_score = 0\<rparr>
                                       \<lparr>team1_score = 0, team2_score = 0\<rparr>))),
      one_game_db False \<lparr>team1_score = 3, team2_score = 0\<rparr> \<lparr>team1_score = 0, team2_score = 0\<rparr>,
      [ScoreUpdated ''k''
        [(''k'', load_game (one_game_row False \<lparr>team1_score = 3, team2_score = 0\<rparr>
                                               \<lparr>team1_score = 0, team2_score = 0\<rparr>))]]) \<and>
   complete_game failing_env
       (one_game_db False \<lparr>team1_score = 3, team2_score = 0\<rparr> \<lparr>team1_score = 0, team2_score = 0\<rparr>)
       ''k'' =
     (Inr (WinnerResp ''A''),
      one_game_db False \<lparr>team1_score = 3, team2_score = 0\<rparr> \<lparr>team1_score = 0, team2_score = 0\<rparr>,
      [GameCompleted
        [(''k'', load_game (one_game_row False \<lparr>team1_score = 3, team2_score = 0\<rparr>
                                               \<lparr>team1_score = 0, team2_score = 0\<rparr>))]])"
  by (simp add: failing_env_def create_game_def new_game_def save_game_def empty_db_tbl
      load_all_games_def update_score_def complete_game_def one_game_db_tbl
      load_one_game_row get_score_def set_numbers_eq set_key_of_1 set_key_of_2 Let_def
      in_integer_def)

section \<open>Registering a team\<close>

lemma update_fresh: "k \<notin> fst ` set al \<Longrightarrow> AList.update k v al = al @ [(k, v)]"
  by (induction al) auto

lemma foldl_update_keys:
  "fst ` set (foldl (\<lambda>teams row. AList.update (fst row) (snd row) teams) acc rows) =
     fst ` set acc \<union> fst ` set rows"
  by (induction rows arbitrary: acc) (auto simp: dom_update)

lemma foldl_update_distinct:
  "distinct (map fst rows) \<Longrightarrow> fst ` set acc \<inter> fst ` set rows = {} \<Longrightarrow>
   foldl (\<lambda>teams row. AList.update (fst row) (snd row) teams) acc rows = acc @ rows"
proof (induction rows arbitrary: acc)
  case Nil
  then show ?case by simp
next
  case (Cons row rows)
  from Cons.prems have fresh: "fst row \<notin> fst ` set acc" by auto
  have "foldl (\<lambda>teams row. AList.update (fst row) (snd row) teams) (acc @ [row]) rows
          = (acc @ [row]) @ rows"
    using Cons.prems by (intro Cons.IH) auto
  then show ?case by (simp add: update_fresh [OF fresh])
qed

lemma distinct_keys_insort:
  "distinct (map fst (insort_key fst x xs)) = (fst x \<notin> fst ` set xs \<and> distinct (map fst xs))"
  by (induction xs) (auto simp: set_insort_key)

lemma distinct_keys_sort:
  "distinct (map fst (sort_key fst xs)) = distinct (map fst xs)"
  by (induction xs) (simp_all add: distinct_keys_insort)

lemma load_all_teams_keys: "fst ` set (load_all_teams d) = fst ` set (teams_tbl d)"
  by (simp add: load_all_teams_def foldl_update_keys)

lemma load_all_teams_distinct:
  "distinct (map fst (teams_tbl d)) \<Longrightarrow> load_all_teams d = sort_key fst (teams_tbl d)"
  using foldl_update_distinct [of "sort_key fst (teams_tbl d)" "[]"]
  by (simp add: load_all_teams_def distinct_keys_sort)

lemma length_load_all_teams:
  "distinct (map fst (teams_tbl d)) \<Longrightarrow> length (load_all_teams d) = length (teams_tbl d)"
  by (simp add: load_all_teams_distinct)

lemma map_of_only_value:
  "k \<in> fst ` set xs \<Longrightarrow> \<forall>x \<in> set xs. fst x = k \<longrightarrow> snd x = v \<Longrightarrow> map_of xs k = Some v"
  by (induction xs) auto

lemma foldl_update_values:
  "set (foldl (\<lambda>teams row. AList.update (fst row) (snd row) teams) acc rows) \<subseteq> set acc \<union> set rows"
proof (induction rows arbitrary: acc)
  case Nil
  then show ?case by simp
next
  case (Cons row rows)
  have "set (AList.update (fst row) (snd row) acc) \<subseteq> insert row (set acc)"
    using in_set_update [of _ "fst row" "snd row" acc] by auto
  with Cons.IH [of "AList.update (fst row) (snd row) acc"] show ?case by auto
qed

lemma load_all_teams_values: "set (load_all_teams d) \<subseteq> set (teams_tbl d)"
  using foldl_update_values [of "[]" "sort_key fst (teams_tbl d)"]
  by (simp add: load_all_teams_def)

lemma create_team_db:
  "fst (snd (create_team e d n p1 p2 pl)) =
     (if length (load_all_teams d) < MAX_TEAMS \<and> n \<notin> fst ` set (load_all_teams d)
      then snd (save_team (fault e) d n p1 p2 pl) else d)"
  by (auto simp: create_team_def Let_def split: prod.splits sum.splits)

lemma remove_team_db: "fst (snd (remove_team e d n)) = snd (delete_team (fault e) d n)"
  by (auto simp: remove_team_def split: prod.splits sum.splits)

lemma create_team_saved:
  assumes "length (load_all_teams d) < MAX_TEAMS" and "n \<notin> fst ` set (load_all_teams d)"
    and "fault e = NoFault"
    and "team_values n p1 p2 pl = Some row" and "fst row \<notin> fst ` set (teams_tbl d)"
  shows "create_team e d n p1 p2 pl =
           (Inr (TeamCreated n), snd (save_team NoFault d n p1 p2 pl),
            [TeamsUpdated (load_all_teams (snd (save_team NoFault d n p1 p2 pl)))])"
    and "teams_tbl (snd (save_team NoFault d n p1 p2 pl)) = teams_tbl d @ [row]"
    and "map_of (load_all_teams (snd (save_team NoFault d n p1 p2 pl))) (fst row) = Some (snd row)"
proof -
  note s = save_team_committed [OF assms(4) assms(5)]
  have c: "\<not> MAX_TEAMS \<le> length (load_all_teams d)"
    using assms(1) by simp
  have "create_team e d n p1 p2 pl =
      (case save_team NoFault d n p1 p2 pl of
         (Inl err, d') \<Rightarrow> (Inl err, d', [])
       | (Inr ok, d') \<Rightarrow>
           if \<not> ok then (Inl (HTTPException 500 ''Failed to save team''), d', [])
           else (Inr (TeamCreated n), d', [TeamsUpdated (load_all_teams d')]))"
    unfolding create_team_def Let_def assms(3) using c assms(2) by simp
  then show "create_team e d n p1 p2 pl =
           (Inr (TeamCreated n), snd (save_team NoFault d n p1 p2 pl),
            [TeamsUpdated (load_all_teams (snd (save_team NoFault d n p1 p2 pl)))])"
    unfolding outcome_of_save [OF s(1)] by simp
  show t: "teams_tbl (snd (save_team NoFault d n p1 p2 pl)) = teams_tbl d @ [row]"
    by (rule s(2))
  have "fst row \<in> fst ` set (load_all_teams (snd (save_team NoFault d n p1 p2 pl)))"
    by (simp add: load_all_teams_keys t)
  moreover have "\<forall>x \<in> set (load_all_teams (snd (save_team NoFault d n p1 p2 pl))).
      fst x = fst row \<longrightarrow> snd x = snd row"
  proof (intro ballI impI)
    fix x
    assume "x \<in> set (load_all_teams (snd (save_team NoFault d n p1 p2 pl)))"
      and k: "fst x = fst row"
    then have "x \<in> set (teams_tbl d) \<or> x = row"
      using load_all_teams_values [of "snd (save_team NoFault d n p1 p2 pl)"]
      by (auto simp: t)
    moreover have "x \<notin> set (teams_tbl d)"
      using assms(5) k by (metis imageI)
    ultimately show "snd x = snd row" by simp
  qed
  ultimately show "map_of (load_all_teams (snd (save_team NoFault d n p1 p2 pl))) (fst row) =
      Some (snd row)"
    by (rule map_of_only_value)
qed

lemma save_team_cases:
  "snd (save_team f d n p1 p2 pl) = d \<or>
   (\<exists>row. fst row \<notin> fst ` set (teams_tbl d) \<and>
      teams_tbl (snd (save_team f d n p1 p2 pl)) = teams_tbl d @ [row])"
proof (cases "f = NoFault")
  case False
  then show ?thesis by (simp add: save_team_not_committed)
next
  case True
  show ?thesis
  proof (cases "team_values n p1 p2 pl")
    case None
    then show ?thesis by (simp add: save_team_not_committed)
  next
    case (Some row)
    show ?thesis
    proof (cases "fst row \<in> fst ` set (teams_tbl d)")
      case True
      with Some show ?thesis by (simp add: save_team_not_committed)
    next
      case False
      from save_team_committed(2) [OF Some False] False \<open>f = NoFault\<close> show ?thesis
        by blast
    qed
  qed
qed

lemma create_team_wf:
  assumes "teams_wf d"
  shows "teams_wf (fst (snd (create_team e d n p1 p2 pl)))"
proof (cases "length (load_all_teams d) < MAX_TEAMS \<and> n \<notin> fst ` set (load_all_teams d)")
  case False
  then show ?thesis using assms by (auto simp: create_team_db)
next
  case True
  then have len: "length (teams_tbl d) < MAX_TEAMS"
    using assms by (simp add: teams_wf_def length_load_all_teams)
  from save_team_cases [of "fault e" d n p1 p2 pl] show ?thesis
  proof
    assume "snd (save_team (fault e) d n p1 p2 pl) = d"
    then show ?thesis using assms True by (auto simp: create_team_db)
  next
    assume "\<exists>row. fst row \<notin> fst ` set (teams_tbl d) \<and>
      teams_tbl (snd (save_team (fault e) d n p1 p2 pl)) = teams_tbl d @ [row]"
    then obtain row where "fst row \<notin> fst ` set (teams_tbl d)"
      and "teams_tbl (snd (save_team (fault e) d n p1 p2 pl)) = teams_tbl d @ [row]"
      by blast
    then show ?thesis using assms True len
      by (auto simp: create_team_db teams_wf_def)
  qed
qed

lemma remove_team_wf: "teams_wf d \<Longrightarrow> teams_wf (fst (snd (remove_team e d n)))"
proof -
  have "length (filter (\<lambda>row. fst row \<noteq> n) (teams_tbl d)) \<le> length (teams_tbl d)"
    by simp
  moreover assume "teams_wf d"
  ultimately show ?thesis
    by (auto simp: remove_team_db delete_team_tbl(1) teams_wf_def distinct_map_filter
        simp del: length_filter_le)
qed

lemma create_game_teams: "teams_tbl (fst (snd (create_game e d t1 t2))) = teams_tbl d"
  by (simp add: create_game_eq outcome_db_of_save save_game_teams)

lemma update_score_teams: "teams_tbl (fst (snd (update_score e d k sk t dl))) = teams_tbl d"
  using update_score_db [of e d k sk t dl] by (auto simp: save_game_teams)

lemma complete_game_teams: "teams_tbl (fst (snd (complete_game e d k))) = teams_tbl d"
proof (cases "map_of (load_all_games d) k")
  case None
  then show ?thesis by (simp add: complete_game_absent)
next
  case (Some g)
  from complete_game_present [OF Some, of e] show ?thesis
    by (auto simp: outcome_db_of_save save_game_teams)
qed

lemma empty_wf: "teams_wf empty_db"
  by (simp add: teams_wf_def empty_db_tbl)

lemma reset_wf: "teams_wf d \<Longrightarrow> teams_wf (fst (snd (reset_tournament e d)))"
  by (simp add: reset_tournament_db empty_wf)

lemma handle_wf: "teams_wf d \<Longrightarrow> teams_wf (fst (snd (handle e d rq)))"
  by (cases rq)
     (simp_all add: create_team_wf remove_team_wf reset_wf,
      simp_all add: teams_wf_def create_game_teams update_score_teams complete_game_teams)

lemma run_wf: "teams_wf d \<Longrightarrow> teams_wf (run d rqs)"
  by (induction d rqs rule: run.induct) (simp_all add: handle_wf)

lemma one_team_db_tbl:
  "teams_tbl one_team_db = [(''T'', \<lparr>player1 = ''x'', player2 = ''y'', pool = ''B''\<rparr>)]"
  "games_tbl one_team_db = []"
  by (simp_all add: one_team_db_def db_of_tbl team_row_ok_def in_varchar_def)

lemma load_one_team_db:
  "load_all_teams one_team_db = [(''T'', \<lparr>player1 = ''x'', player2 = ''y'', pool = ''B''\<rparr>)]"
  by (simp add: load_all_teams_def one_team_db_tbl)

lemma fifteen_teams_db_tbl:
  "teams_tbl fifteen_teams_db =
     map (\<lambda>c. ([c], \<lparr>player1 = [], player2 = [], pool = ''A''\<rparr>)) ''abcdefghijklmno''"
  by (simp add: fifteen_teams_db_def db_of_tbl team_row_ok_def in_varchar_def)

lemma length_fifteen_teams: "length (load_all_teams fifteen_teams_db) = 15"
  by (subst length_load_all_teams) (simp_all add: fifteen_teams_db_tbl)

lemma long_name_length: "length long_name = 255"
  by (simp add: long_name_def)

lemma long_name_cut: "to_varchar 255 (long_name @ '' '') = Some long_name"
  by (simp add: to_varchar_def long_name_def)

lemma long_team_db_tbl:
  "teams_tbl long_team_db = [(long_name, \<lparr>player1 = ''x'', player2 = ''y'', pool = ''B''\<rparr>)]"
  by (simp add: long_team_db_def db_of_tbl team_row_ok_def in_varchar_def long_name_length)

lemma load_long_team_db:
  "load_all_teams long_team_db = [(long_name, \<lparr>player1 = ''x'', player2 = ''y'', pool = ''B''\<rparr>)]"
  by (simp add: load_all_teams_def long_team_db_tbl)

text \<open>
  Two registrations that pass both tests of \<^verbatim>\<open>create_team\<close>. With a team stored under a
  name of 255 characters, that name followed by one space is not a key, and fewer than
  \<open>MAX_TEAMS\<close> teams are stored; the column cuts the space, the insertion violates the
  primary key, \<^verbatim>\<open>save_team\<close> returns False and the request fails with status 500, with
  nothing stored. On the empty database, a team registered with pool \<^verbatim>\<open>"B "\<close> is stored
  with pool \<^verbatim>\<open>"B"\<close>; the answer carries the name alone.
\<close>

theorem create_team_cut_counterexample:
  "length (load_all_teams long_team_db) < MAX_TEAMS \<and>
   long_name @ '' '' \<notin> fst ` set (load_all_teams long_team_db) \<and>
   create_team env0 long_team_db (long_name @ '' '') ''u'' ''v'' ''C'' =
     (Inl (HTTPException 500 ''Failed to save team''), long_team_db, []) \<and>
   fst (create_team env0 empty_db ''T'' ''x'' ''y'' ''B '') = Inr (TeamCreated ''T'') \<and>
   load_all_teams (fst (snd (create_team env0 empty_db ''T'' ''x'' ''y'' ''B ''))) =
     [(''T'', \<lparr>player1 = ''x'', player2 = ''y'', pool = ''B''\<rparr>)]"
proof -
  have a: "length (load_all_teams long_team_db) < MAX_TEAMS"
    by (simp add: load_long_team_db MAX_TEAMS_def)
  have b: "long_name @ '' '' \<notin> fst ` set (load_all_teams long_team_db)"
    by (simp add: load_long_team_db)
  have v: "team_values (long_name @ '' '') ''u'' ''v'' ''C'' =
             Some (long_name, \<lparr>player1 = ''u'', player2 = ''v'', pool = ''C''\<rparr>)"
    by (simp add: team_values_def long_name_cut to_varchar_fits in_varchar_def)
  have s: "save_team NoFault long_team_db (long_name @ '' '') ''u'' ''v'' ''C'' =
             (Inr False, long_team_db)"
    by (simp add: save_team_def v long_team_db_tbl)
  have c: "create_team env0 long_team_db (long_name @ '' '') ''u'' ''v'' ''C'' =
     (Inl (HTTPException 500 ''Failed to save team''), long_team_db, [])"
    using a b by (simp add: create_team_def Let_def env0_simps s)
  have w: "team_values ''T'' ''x'' ''y'' ''B '' =
             Some (''T'', \<lparr>player1 = ''x'', player2 = ''y'', pool = ''B''\<rparr>)"
    by (simp add: team_values_def to_varchar_def)
  have e1: "length (load_all_teams empty_db) < MAX_TEAMS"
    and e2: "''T'' \<notin> fst ` set (load_all_teams empty_db)"
    by (simp_all add: load_all_teams_def empty_db_tbl MAX_TEAMS_def)
  have e3: "fst (''T'', \<lparr>player1 = ''x'', player2 = ''y'', pool = ''B''\<rparr>) \<notin>
              fst ` set (teams_tbl empty_db)"
    by (simp add: empty_db_tbl)
  note t = create_team_saved [OF e1 e2 env0_simps(1) w e3]
  have l: "load_all_teams (snd (save_team NoFault empty_db ''T'' ''x'' ''y'' ''B '')) =
     [(''T'', \<lparr>player1 = ''x'', player2 = ''y'', pool = ''B''\<rparr>)]"
    unfolding load_all_teams_def t(2) by (simp add: empty_db_tbl)
  show ?thesis
    unfolding t(1) by (simp add: a b c l)
qed

text \<open>
  C6, as the code has it. \<^verbatim>\<open>create_team\<close>: with \<open>MAX_TEAMS\<close> (15) teams or more it
  fails with \<open>CapacityExceeded\<close>; otherwise, with a name that is already a key, compared
  exactly, it fails with \<open>DuplicateName\<close>; otherwise, when the name and the two players
  have at most 255 characters, the pool at most one, and the write is committed, the team
  is appended to the table with its two players and its pool as given, the answer carries
  its name and \<^verbatim>\<open>teams_updated\<close> is broadcast with the reloaded teams. In every database
  reached from the empty one the number of teams is at most \<open>MAX_TEAMS\<close>.
\<close>

theorem create_team_cases:
  "(MAX_TEAMS \<le> length (load_all_teams d) \<longrightarrow>
      create_team e d n p1 p2 pl = (Inl CapacityExceeded, d, [])) \<and>
   (length (load_all_teams d) < MAX_TEAMS \<and> n \<in> fst ` set (load_all_teams d) \<longrightarrow>
      create_team e d n p1 p2 pl = (Inl DuplicateName, d, [])) \<and>
   (length (load_all_teams d) < MAX_TEAMS \<and> n \<notin> fst ` set (load_all_teams d) \<and>
    fault e = NoFault \<and>
    length n \<le> 255 \<and> length p1 \<le> 255 \<and> length p2 \<le> 255 \<and> length pl \<le> 1 \<longrightarrow>
      fst (create_team e d n p1 p2 pl) = Inr (TeamCreated n) \<and>
      teams_tbl (fst (snd (create_team e d n p1 p2 pl))) =
        teams_tbl d @ [(n, \<lparr>player1 = p1, player2 = p2, pool = pl\<rparr>)] \<and>
      games_tbl (fst (snd (create_team e d n p1 p2 pl))) = games_tbl d \<and>
      map_of (load_all_teams (fst (snd (create_team e d n p1 p2 pl)))) n =
        Some \<lparr>player1 = p1, player2 = p2, pool = pl\<rparr> \<and>
      snd (snd (create_team e d n p1 p2 pl)) =
        [TeamsUpdated (load_all_teams (fst (snd (create_team e d n p1 p2 pl))))]) \<and>
   length (load_all_teams (run empty_db rqs)) \<le> MAX_TEAMS"
proof (intro conjI impI)
  show "create_team e d n p1 p2 pl = (Inl CapacityExceeded, d, [])"
    if "MAX_TEAMS \<le> length (load_all_teams d)"
    using that by (simp add: create_team_def CapacityExceeded_def)
  show "create_team e d n p1 p2 pl = (Inl DuplicateName, d, [])"
    if "length (load_all_teams d) < MAX_TEAMS \<and> n \<in> fst ` set (load_all_teams d)"
    using that by (simp add: create_team_def DuplicateName_def)
  have "teams_wf (run empty_db rqs)" by (rule run_wf [OF empty_wf])
  then show "length (load_all_teams (run empty_db rqs)) \<le> MAX_TEAMS"
    by (simp add: teams_wf_def length_load_all_teams)
next
  assume h: "length (load_all_teams d) < MAX_TEAMS \<and> n \<notin> fst ` set (load_all_teams d) \<and>
    fault e = NoFault \<and>
    length n \<le> 255 \<and> length p1 \<le> 255 \<and> length p2 \<le> 255 \<and> length pl \<le> 1"
  then have a: "length (load_all_teams d) < MAX_TEAMS" and b: "n \<notin> fst ` set (load_all_teams d)"
    and c: "fault e = NoFault"
    by simp_all
  have v: "team_values n p1 p2 pl = Some (n, \<lparr>player1 = p1, player2 = p2, pool = pl\<rparr>)"
    using h by (intro team_values_fits) (simp_all add: in_varchar_def)
  have fresh: "fst (n, \<lparr>player1 = p1, player2 = p2, pool = pl\<rparr>) \<notin> fst ` set (teams_tbl d)"
    using b by (simp add: load_all_teams_keys)
  note t = create_team_saved [OF a b c v fresh]
  show "fst (create_team e d n p1 p2 pl) = Inr (TeamCreated n)"
    by (simp add: t(1))
  show "teams_tbl (fst (snd (create_team e d n p1 p2 pl))) =
        teams_tbl d @ [(n, \<lparr>player1 = p1, player2 = p2, pool = pl\<rparr>)]"
    by (simp add: t(1) t(2))
  show "games_tbl (fst (snd (create_team e d n p1 p2 pl))) = games_tbl d"
    by (rule create_team_games)
  show "map_of (load_all_teams (fst (snd (create_team e d n p1 p2 pl)))) n =
        Some \<lparr>player1 = p1, player2 = p2, pool = pl\<rparr>"
    using t(3) by (simp add: t(1))
  show "snd (snd (create_team e d n p1 p2 pl)) =
        [TeamsUpdated (load_all_teams (fst (snd (create_team e d n p1 p2 pl))))]"
    by (simp add: t(1))
qed

text \<open>The sixteenth team is rejected, a second \<^verbatim>\<open>"T"\<close> is rejected, the first is stored.\<close>

theorem create_team_cases_witness:
  "create_team env0 fifteen_teams_db ''p'' [] [] ''A'' = (Inl CapacityExceeded, fifteen_teams_db, []) \<and>
   create_team env0 one_team_db ''T'' ''u'' ''v'' ''C'' = (Inl DuplicateName, one_team_db, []) \<and>
   create_team env0 empty_db ''T'' ''x'' ''y'' ''B'' =
     (Inr (TeamCreated ''T''), one_team_db,
      [TeamsUpdated [(''T'', \<lparr>player1 = ''x'', player2 = ''y'', pool = ''B''\<rparr>)]])"
proof -
  have e: "length (load_all_teams empty_db) < MAX_TEAMS"
    "''T'' \<notin> fst ` set (load_all_teams empty_db)"
    by (simp_all add: load_all_teams_def empty_db_tbl MAX_TEAMS_def)
  from create_team_cases [of empty_db env0 "''T''" "''x''" "''y''" "''B''" "[]"] e
  have r: "fst (create_team env0 empty_db ''T'' ''x'' ''y'' ''B'') = Inr (TeamCreated ''T'')"
    "teams_tbl (fst (snd (create_team env0 empty_db ''T'' ''x'' ''y'' ''B''))) =
       teams_tbl one_team_db"
    "games_tbl (fst (snd (create_team env0 empty_db ''T'' ''x'' ''y'' ''B''))) =
       games_tbl one_team_db"
    "snd (snd (create_team env0 empty_db ''T'' ''x'' ''y'' ''B'')) =
        [TeamsUpdated (load_all_teams (fst (snd (create_team env0 empty_db ''T'' ''x'' ''y'' ''B''))))]"
    by (simp_all add: env0_simps empty_db_tbl one_team_db_tbl)
  have d: "fst (snd (create_team env0 empty_db ''T'' ''x'' ''y'' ''B'')) = one_team_db"
    by (rule db_eqI [OF r(2) r(3)])
  have third: "create_team env0 empty_db ''T'' ''x'' ''y'' ''B'' =
     (Inr (TeamCreated ''T''), one_team_db,
      [TeamsUpdated [(''T'', \<lparr>player1 = ''x'', player2 = ''y'', pool = ''B''\<rparr>)]])"
    using r(1) r(4) unfolding d load_one_team_db by (simp add: prod_eq_iff d)
  from
    create_team_cases [of fifteen_teams_db env0 "''p''" "[]" "[]" "''A''" "[]"]
    create_team_cases [of one_team_db env0 "''T''" "''u''" "''v''" "''C''" "[]"]
    third
  show ?thesis
    by (simp add: length_fifteen_teams load_one_team_db MAX_TEAMS_def)
qed

section \<open>Completing a game twice\<close>

text \<open>
  C8. \<^verbatim>\<open>complete_game\<close> can be repeated: on a stored game, a first and then a second
  invocation both succeed (unless the connection cannot be opened) and answer with the
  same winner, and the game stored afterwards has the \<^verbatim>\<open>start_time\<close> it had before the
  first invocation.
\<close>

theorem complete_game_idempotent:
  assumes "map_of (load_all_games d) game_key = Some g"
    and "fault e1 \<noteq> ConnectFault" and "fault e2 \<noteq> ConnectFault"
  shows "\<exists>w g2.
           fst (complete_game e1 d game_key) = Inr (WinnerResp w) \<and>
           fst (complete_game e2 (fst (snd (complete_game e1 d game_key))) game_key)
             = Inr (WinnerResp w) \<and>
           map_of (load_all_games
              (fst (snd (complete_game e2 (fst (snd (complete_game e1 d game_key))) game_key))))
              game_key = Some g2 \<and>
           start_time g2 = start_time g \<and>
           (fault e2 = NoFault \<longrightarrow> completed g2 \<and> winner g2 = Some w)"
proof -
  from loaded_game_sets [OF assms(1)] obtain a b where
    a: "map_of (sets g) ''set1'' = Some a" and b: "map_of (sets g) ''set2'' = Some b"
    by blast
  define w where "w = spec_winner (team1 g) (team2 g) [a, b]"
  let ?d1 = "fst (snd (complete_game e1 d game_key))"
  let ?g1 = "if fault e1 = NoFault
             then g\<lparr>winner := Some w, completed := True, end_time := Some (now e1)\<rparr> else g"
  note first = complete_game_result [OF assms(1) a b w_def assms(2)]
  have g1: "map_of (load_all_games ?d1) game_key = Some ?g1"
    using first(2) [of game_key] assms(1) by simp
  have a1: "map_of (sets ?g1) ''set1'' = Some a" and b1: "map_of (sets ?g1) ''set2'' = Some b"
    using a b by simp_all
  have w1: "w = spec_winner (team1 ?g1) (team2 ?g1) [a, b]"
    by (simp add: w_def)
  note second = complete_game_result [OF g1 a1 b1 w1 assms(3)]
  let ?d2 = "fst (snd (complete_game e2 ?d1 game_key))"
  let ?g2 = "if fault e2 = NoFault
             then ?g1\<lparr>winner := Some w, completed := True, end_time := Some (now e2)\<rparr> else ?g1"
  have g2: "map_of (load_all_games ?d2) game_key = Some ?g2"
    using second(2) [of game_key] g1 by simp
  have "start_time ?g2 = start_time g" by simp
  moreover have "fault e2 = NoFault \<longrightarrow> completed ?g2 \<and> winner ?g2 = Some w" by simp
  ultimately show ?thesis
    using first(1) second(1) g2 by blast
qed

text \<open>The game 21-15, 21-18, started at 3, completed at 9 and again at 12.\<close>

theorem complete_game_idempotent_witness:
  "\<exists>w g2.
     fst (complete_game env0
           (one_game_db False \<lparr>team1_score = 21, team2_score = 15\<rparr>
                              \<lparr>team1_score = 21, team2_score = 18\<rparr>) ''k'')
       = Inr (WinnerResp w) \<and>
     fst (complete_game (env0\<lparr>now := 12\<rparr>)
           (fst (snd (complete_game env0
              (one_game_db False \<lparr>team1_score = 21, team2_score = 15\<rparr>
                                 \<lparr>team1_score = 21, team2_score = 18\<rparr>) ''k''))) ''k'')
       = Inr (WinnerResp w) \<and>
     map_of (load_all_games
        (fst (snd (complete_game (env0\<lparr>now := 12\<rparr>)
           (fst (snd (complete_game env0
              (one_game_db False \<lparr>team1_score = 21, team2_score = 15\<rparr>
                                 \<lparr>team1_score = 21, team2_score = 18\<rparr>) ''k''))) ''k''))))
        ''k'' = Some g2 \<and>
     start_time g2 = Some 3 \<and> completed g2 \<and> winner g2 = Some w"
proof -
  have h: "map_of (load_all_games
        (one_game_db False \<lparr>team1_score = 21, team2_score = 15\<rparr>
                           \<lparr>team1_score = 21, team2_score = 18\<rparr>)) ''k''
      = Some (load_game (one_game_row False \<lparr>team1_score = 21, team2_score = 15\<rparr>
                                            \<lparr>team1_score = 21, team2_score = 18\<rparr>))"
    by (simp add: load_one_game_db in_integer_def)
  have f: "fault env0 \<noteq> ConnectFault" "fault (env0\<lparr>now := 12\<rparr>) \<noteq> ConnectFault"
    "fault (env0\<lparr>now := 12\<rparr>) = NoFault"
    by (simp_all add: env0_simps)
  from complete_game_idempotent [OF h f(1) f(2)] show ?thesis
    by (simp only: f(3) load_one_game_row game.simps simp_thms)
qed

section \<open>The end time of a game\<close>

lemma open_unended_rows:
  "open_unended d =
     (\<forall>row \<in> set (games_tbl d). completed_col (snd row) \<or> end_time_col (snd row) = None)"
  by (auto simp: open_unended_def load_all_games_def list_all_iff load_game_eq)

lemma saved_game_flags:
  "completed (saved_game old g) = completed g" "end_time (saved_game old g) = end_time g"
  by (simp_all add: saved_game_def load_game_eq upsert_game_row_def split: option.splits)

lemma game_values_key: "game_values k g = Some (k', g') \<Longrightarrow> in_varchar 512 k \<Longrightarrow> k' = k"
  by (auto simp: game_values_def to_varchar_fits split: option.splits if_splits)

lemma save_game_unended:
  assumes "open_unended d" and "completed g \<or> end_time g = None"
  shows "open_unended (snd (save_game f d k g))"
proof (cases "f = NoFault \<and> game_values k g \<noteq> None")
  case True
  then obtain k' g' where vals: "game_values k g = Some (k', g')" and f: "f = NoFault"
    by auto
  have "completed g' \<or> end_time g' = None"
    using assms(2) by (simp add: game_values_in(4) [OF vals] game_values_in(6) [OF vals])
  then have "completed (saved_game (map_of (games_tbl d) k') g') \<or>
        end_time (saved_game (map_of (games_tbl d) k') g') = None"
    by (simp add: saved_game_flags)
  then show ?thesis
    using assms(1)
    by (auto simp: f open_unended_rows save_game_NoFault(2) [OF vals] saved_game_def load_game_eq
        dest!: in_set_update)
next
  case False
  then have "snd (save_game f d k g) = d"
    by (intro save_game_unchanged) (cases "game_values k g"; auto)
  with assms(1) show ?thesis by simp
qed

lemma save_game_end_time:
  assumes "map_of (load_all_games d) k = Some g0" and "end_time g = end_time g0"
  shows "map_option end_time (map_of (load_all_games (snd (save_game f d k g))) k'') =
         map_option end_time (map_of (load_all_games d) k'')"
proof (cases "f = NoFault \<and> game_values k g \<noteq> None")
  case True
  then obtain k' g' where vals: "game_values k g = Some (k', g')" and f: "f = NoFault"
    by auto
  from assms(1) obtain r where r: "map_of (games_tbl d) k = Some r"
    by (auto simp: map_of_load_all_games)
  have k: "k' = k"
    by (rule game_values_key [OF vals loaded_fits(1) [OF r]])
  show ?thesis
    using assms
    by (simp add: f load_after_save [OF vals] k saved_game_flags game_values_in(6) [OF vals])
next
  case False
  then have "snd (save_game f d k g) = d"
    by (intro save_game_unchanged) (cases "game_values k g"; auto)
  then show ?thesis by simp
qed

lemma open_unended_lookup:
  "open_unended d \<Longrightarrow> map_of (load_all_games d) k = Some g \<Longrightarrow>
   completed g \<or> end_time g = None"
  by (auto simp: open_unended_def list_all_iff dest!: map_of_SomeD)

lemma create_game_unended: "open_unended d \<Longrightarrow> open_unended (fst (snd (create_game e d t1 t2)))"
  by (simp add: create_game_eq outcome_db_of_save save_game_unended new_game_def)

lemma update_score_unended:
  assumes "open_unended d"
  shows "open_unended (fst (snd (update_score e d k sk t dl)))"
proof -
  consider "fst (snd (update_score e d k sk t dl)) = d"
    | g s c where "map_of (load_all_games d) k = Some g"
      "fst (snd (update_score e d k sk t dl)) =
        snd (save_game (fault e) d k
          (g\<lparr>sets := AList.update sk (put_score s (t @ ''_score'') (max 0 (c + dl))) (sets g)\<rparr>))"
    using update_score_db [of e d k sk t dl] by blast
  then show ?thesis
  proof cases
    case 1
    then show ?thesis using assms by simp
  next
    case 2
    from open_unended_lookup [OF assms 2(1)] show ?thesis
      unfolding 2(2) using assms by (intro save_game_unended) simp_all
  qed
qed

lemma complete_game_unended:
  assumes "open_unended d"
  shows "open_unended (fst (snd (complete_game e d k)))"
proof (cases "map_of (load_all_games d) k")
  case None
  then show ?thesis using assms by (simp add: complete_game_absent)
next
  case (Some g)
  from complete_game_present [OF Some, of e] obtain w where
    db: "fst (snd (complete_game e d k)) =
      snd (save_game (fault e) d k (g\<lparr>winner := Some w, completed := True, end_time := Some (now e)\<rparr>))"
    by (auto simp: outcome_db_of_save)
  show ?thesis unfolding db using assms by (intro save_game_unended) simp_all
qed

lemma empty_unended: "open_unended empty_db"
  by (simp add: open_unended_rows empty_db_tbl)

lemma handle_unended: "open_unended d \<Longrightarrow> open_unended (fst (snd (handle e d rq)))"
proof (cases rq)
  case (CreateTeam n p1 p2 pl)
  then show "open_unended d \<Longrightarrow> ?thesis"
    by (simp add: open_unended_rows create_team_games)
next
  case (RemoveTeam n)
  then show "open_unended d \<Longrightarrow> ?thesis"
    by (simp add: open_unended_rows remove_team_games)
next
  case ResetTournament
  then show "open_unended d \<Longrightarrow> ?thesis"
    by (simp add: reset_tournament_db empty_unended)
qed (simp_all add: create_game_unended update_score_unended complete_game_unended)

lemma run_unended: "open_unended d \<Longrightarrow> open_unended (run d rqs)"
  by (induction d rqs rule: run.induct) (simp_all add: handle_unended)

lemma update_score_end_time:
  "map_option end_time (map_of (load_all_games (fst (snd (update_score e d k sk t dl)))) k') =
   map_option end_time (map_of (load_all_games d) k')"
proof -
  consider "fst (snd (update_score e d k sk t dl)) = d"
    | g s c where "map_of (load_all_games d) k = Some g"
      "fst (snd (update_score e d k sk t dl)) =
        snd (save_game (fault e) d k
          (g\<lparr>sets := AList.update sk (put_score s (t @ ''_score'') (max 0 (c + dl))) (sets g)\<rparr>))"
    using update_score_db [of e d k sk t dl] by blast
  then show ?thesis
  proof cases
    case 1
    then show ?thesis by simp
  next
    case 2
    show ?thesis
      unfolding 2(2) by (rule save_game_end_time [OF 2(1)]) simp
  qed
qed

text \<open>
  The game 21-15, 21-18 completed at clock reading 9 and again at 12: its \<^verbatim>\<open>end_time\<close>
  is 9 after the first invocation and 12 after the second.
\<close>

theorem end_time_overwritten_counterexample:
  "map_option end_time (map_of (load_all_games
      (fst (snd (complete_game env0
         (one_game_db False \<lparr>team1_score = 21, team2_score = 15\<rparr>
                            \<lparr>team1_score = 21, team2_score = 18\<rparr>) ''k'')))) ''k'')
     = Some (Some 9) \<and>
   map_option end_time (map_of (load_all_games
      (fst (snd (complete_game (env0\<lparr>now := 12\<rparr>)
         (fst (snd (complete_game env0
            (one_game_db False \<lparr>team1_score = 21, team2_score = 15\<rparr>
                               \<lparr>team1_score = 21, team2_score = 18\<rparr>) ''k''))) ''k'')))) ''k'')
     = Some (Some 12)"
proof -
  let ?D = "one_game_db False \<lparr>team1_score = 21, team2_score = 15\<rparr>
                              \<lparr>team1_score = 21, team2_score = 18\<rparr>"
  let ?g = "load_game (one_game_row False \<lparr>team1_score = 21, team2_score = 15\<rparr>
                                          \<lparr>team1_score = 21, team2_score = 18\<rparr>)"
  let ?d1 = "fst (snd (complete_game env0 ?D ''k''))"
  have h: "map_of (load_all_games ?D) ''k'' = Some ?g"
    by (simp add: load_one_game_db in_integer_def)
  have a: "map_of (sets ?g) ''set1'' = Some \<lparr>team1_score = 21, team2_score = 15\<rparr>"
    and b: "map_of (sets ?g) ''set2'' = Some \<lparr>team1_score = 21, team2_score = 18\<rparr>"
    by (simp_all add: load_one_game_row)
  have f: "fault env0 \<noteq> ConnectFault" "fault (env0\<lparr>now := 12\<rparr>) \<noteq> ConnectFault"
    by (simp_all add: env0_simps)
  have g1: "map_of (load_all_games ?d1) ''k'' =
      Some (?g\<lparr>winner := Some (spec_winner (team1 ?g) (team2 ?g)
                 [\<lparr>team1_score = 21, team2_score = 15\<rparr>, \<lparr>team1_score = 21, team2_score = 18\<rparr>]),
               completed := True, end_time := Some 9\<rparr>)"
    using complete_game_result(2) [OF h a b refl f(1), of "''k''"] by (simp add: env0_simps)
  have a1: "map_of (sets (?g\<lparr>winner := Some (spec_winner (team1 ?g) (team2 ?g)
                 [\<lparr>team1_score = 21, team2_score = 15\<rparr>, \<lparr>team1_score = 21, team2_score = 18\<rparr>]),
               completed := True, end_time := Some 9\<rparr>)) ''set1'' = Some \<lparr>team1_score = 21, team2_score = 15\<rparr>"
    and b1: "map_of (sets (?g\<lparr>winner := Some (spec_winner (team1 ?g) (team2 ?g)
                 [\<lparr>team1_score = 21, team2_score = 15\<rparr>, \<lparr>team1_score = 21, team2_score = 18\<rparr>]),
               completed := True, end_time := Some 9\<rparr>)) ''set2'' = Some \<lparr>team1_score = 21, team2_score = 18\<rparr>"
    using a b by simp_all
  have first: "map_option end_time (map_of (load_all_games ?d1) ''k'') = Some (Some 9)"
    by (simp add: g1)
  have second: "map_option end_time (map_of (load_all_games
      (fst (snd (complete_game (env0\<lparr>now := 12\<rparr>) ?d1 ''k''))))  ''k'') = Some (Some 12)"
    using complete_game_result(2) [OF g1 a1 b1 refl f(2), of "''k''"] by (simp add: env0_simps)
  from first second show ?thesis by (rule conjI)
qed

text \<open>
  C9, as the code has it. In every database reached from the empty one, a game that is
  not completed has no \<^verbatim>\<open>end_time\<close>. Every \<^verbatim>\<open>complete_game\<close> on a stored game whose
  write is committed sets the \<^verbatim>\<open>end_time\<close> to the clock reading of that invocation,
  whether the game was completed before or not. \<^verbatim>\<open>update_score\<close> changes the
  \<^verbatim>\<open>end_time\<close> of no game.
\<close>

theorem end_time_set_at_each_completion:
  "(d = run empty_db rqs \<longrightarrow>
      (\<forall>g. map_of (load_all_games d) game_key = Some g \<and> \<not> completed g \<longrightarrow> end_time g = None)) \<and>
   (\<forall>g. map_of (load_all_games d) game_key = Some g \<and> fault e = NoFault \<longrightarrow>
      map_option end_time
        (map_of (load_all_games (fst (snd (complete_game e d game_key)))) game_key)
        = Some (Some (now e))) \<and>
   map_option end_time
     (map_of (load_all_games (fst (snd (update_score e d game_key set_key team delta)))) k')
     = map_option end_time (map_of (load_all_games d) k')"
proof (intro conjI impI allI)
  fix g
  assume d: "d = run empty_db rqs"
    and g: "map_of (load_all_games d) game_key = Some g \<and> \<not> completed g"
  have "open_unended d" unfolding d by (rule run_unended [OF empty_unended])
  with g show "end_time g = None" by (auto dest: open_unended_lookup)
next
  fix g
  assume h: "map_of (load_all_games d) game_key = Some g \<and> fault e = NoFault"
  then have g: "map_of (load_all_games d) game_key = Some g" and f: "fault e = NoFault"
    by simp_all
  from loaded_game_sets [OF g] obtain a b where
    a: "map_of (sets g) ''set1'' = Some a" and b: "map_of (sets g) ''set2'' = Some b"
    by blast
  have nf: "fault e \<noteq> ConnectFault" using f by simp
  show "map_option end_time
        (map_of (load_all_games (fst (snd (complete_game e d game_key)))) game_key)
        = Some (Some (now e))"
    using complete_game_result(2) [OF g a b refl nf, of game_key] f by simp
next
  show "map_option end_time
     (map_of (load_all_games (fst (snd (update_score e d game_key set_key team delta)))) k')
     = map_option end_time (map_of (load_all_games d) k')"
    by (rule update_score_end_time)
qed

theorem end_time_set_at_each_completion_witness:
  "map_option end_time
     (map_of (load_all_games (run empty_db [(env0, CreateGame ''A'' ''B'')])) ''A_vs_B_s'')
     = Some None \<and>
   map_option end_time
     (map_of (load_all_games (fst (snd (complete_game (env0\<lparr>now := 12\<rparr>)
        (run empty_db [(env0, CreateGame ''A'' ''B'')]) ''A_vs_B_s'')))) ''A_vs_B_s'')
     = Some (Some 12)"
  using end_time_set_at_each_completion [of "run empty_db [(env0, CreateGame ''A'' ''B'')]"
      "[(env0, CreateGame ''A'' ''B'')]" "''A_vs_B_s''" "env0\<lparr>now := 12\<rparr>"]
  by (simp add: load_create_one new_game_def env0_simps del: run.simps)

section \<open>Standings\<close>

lemma map_entry_tbl:
  "distinct (map fst teams) \<Longrightarrow>
   AList.map_entry k f (map (\<lambda>row. (fst row, H row)) teams) =
     map (\<lambda>row. (fst row, if fst row = k then f (H row) else H row)) teams"
proof (induction teams)
  case Nil
  then show ?case by simp
next
  case (Cons p ps)
  show ?case
  proof (cases "fst p = k")
    case True
    from Cons.prems have "fst p \<notin> fst ` set ps" by simp
    with True have "\<forall>row \<in> set ps. fst row \<noteq> k" by (auto simp: image_iff)
    then have "map (\<lambda>row. (fst row, H row)) ps =
               map (\<lambda>row. (fst row, if fst row = k then f (H row) else H row)) ps"
      by (intro map_cong) auto
    with True show ?thesis by simp
  next
    case False
    with Cons show ?thesis by simp
  qed
qed

lemma foldl_update_fun:
  "foldl (\<lambda>st row. AList.update (fst row) (Z row) st) acc rows =
   foldl (\<lambda>st row. AList.update (fst row) (snd row) st) acc (map (\<lambda>row. (fst row, Z row)) rows)"
  by (induction rows arbitrary: acc) simp_all

lemma init_standings_spec:
  assumes "distinct (map fst teams)"
  shows "init_standings teams = spec_table teams []"
proof -
  let ?Z = "\<lambda>row::string \<times> team_data.
     \<lparr>st_team = fst row, st_pool = pool (snd row), games_played = 0, set_wins = 0,
      set_losses = 0, points_for = 0, points_against = 0, point_differential = 0\<rparr>"
  have "init_standings teams =
      foldl (\<lambda>st row. AList.update (fst row) (snd row) st) []
        (map (\<lambda>row. (fst row, ?Z row)) teams)"
    unfolding init_standings_def by (rule foldl_update_fun)
  also have "\<dots> = [] @ map (\<lambda>row. (fst row, ?Z row)) teams"
    by (rule foldl_update_distinct) (simp_all add: comp_def assms)
  also have "\<dots> = spec_table teams []"
    by (simp add: spec_table_def spec_standing_def)
  finally show ?thesis .
qed

lemma spec_table_keys: "fst ` set (spec_table teams gds) = fst ` set teams"
  by (force simp: spec_table_def)

lemma game_scores_eq:
  "map_of (sets gd) ''set1'' = Some a \<Longrightarrow> map_of (sets gd) ''set2'' = Some b \<Longrightarrow>
   game_scores gd = [a, b]"
  by (simp add: game_scores_def score_of_def set_numbers_eq set_key_of_1 set_key_of_2)

lemma has_sets_iff:
  "has_sets gd = (\<exists>a b. map_of (sets gd) ''set1'' = Some a \<and> map_of (sets gd) ''set2'' = Some b)"
  by (auto simp: has_sets_def set_numbers_eq set_key_of_1 set_key_of_2)

lemma spec_table_skip:
  "\<not> counted teams gd \<Longrightarrow> spec_table teams (seen @ [gd]) = spec_table teams seen"
  by (simp add: spec_table_def spec_standing_def)

lemma one_set_tbl:
  assumes "distinct (map fst teams)"
  shows
  "(let s1 = team1_score s;
        s2 = team2_score s;
        st1 = AList.map_entry t1 (\<lambda>x. x\<lparr>points_for := points_for x + s1\<rparr>)
                (map (\<lambda>row. (fst row, H row)) teams);
        st2 = AList.map_entry t1 (\<lambda>x. x\<lparr>points_against := points_against x + s2\<rparr>) st1;
        st3 = AList.map_entry t2 (\<lambda>x. x\<lparr>points_for := points_for x + s2\<rparr>) st2;
        st4 = AList.map_entry t2 (\<lambda>x. x\<lparr>points_against := points_against x + s1\<rparr>) st3
    in (if s1 > s2 then
          AList.map_entry t2 (\<lambda>x. x\<lparr>set_losses := set_losses x + 1\<rparr>)
            (AList.map_entry t1 (\<lambda>x. x\<lparr>set_wins := set_wins x + 1\<rparr>) st4)
        else if s2 > s1 then
          AList.map_entry t1 (\<lambda>x. x\<lparr>set_losses := set_losses x + 1\<rparr>)
            (AList.map_entry t2 (\<lambda>x. x\<lparr>set_wins := set_wins x + 1\<rparr>) st4)
        else st4))
   = map (\<lambda>row. (fst row, set_effect (fst row) t1 t2 s (H row))) teams"
  by (simp add: Let_def map_entry_tbl [OF assms] set_effect_def)

lemma one_set_tbl_cont:
  assumes "distinct (map fst teams)"
  shows
  "(let s1 = team1_score s;
        s2 = team2_score s;
        st1 = AList.map_entry t1 (\<lambda>x. x\<lparr>points_for := points_for x + s1\<rparr>)
                (map (\<lambda>row. (fst row, H row)) teams);
        st2 = AList.map_entry t1 (\<lambda>x. x\<lparr>points_against := points_against x + s2\<rparr>) st1;
        st3 = AList.map_entry t2 (\<lambda>x. x\<lparr>points_for := points_for x + s2\<rparr>) st2;
        st4 = AList.map_entry t2 (\<lambda>x. x\<lparr>points_against := points_against x + s1\<rparr>) st3;
        st5 = (if s1 > s2 then
          AList.map_entry t2 (\<lambda>x. x\<lparr>set_losses := set_losses x + 1\<rparr>)
            (AList.map_entry t1 (\<lambda>x. x\<lparr>set_wins := set_wins x + 1\<rparr>) st4)
        else if s2 > s1 then
          AList.map_entry t1 (\<lambda>x. x\<lparr>set_losses := set_losses x + 1\<rparr>)
            (AList.map_entry t2 (\<lambda>x. x\<lparr>set_wins := set_wins x + 1\<rparr>) st4)
        else st4)
    in K st5)
   = K (map (\<lambda>row. (fst row, set_effect (fst row) t1 t2 s (H row))) teams)"
proof -
  note e = one_set_tbl [OF assms, of s t1 H t2, unfolded Let_def]
  show ?thesis unfolding Let_def e ..
qed

lemma tally_sets_tbl:
  assumes "distinct (map fst teams)"
    and "map_of (sets gd) ''set1'' = Some a" and "map_of (sets gd) ''set2'' = Some b"
  shows "tally_sets gd t1 t2 set_numbers (map (\<lambda>row. (fst row, H row)) teams) =
     Inr (map (\<lambda>row. (fst row, set_effect (fst row) t1 t2 b (set_effect (fst row) t1 t2 a (H row))))
            teams)"
proof -
  have "tally_sets gd t1 t2 set_numbers (map (\<lambda>row. (fst row, H row)) teams) =
        tally_sets gd t1 t2 [2]
          (map (\<lambda>row. (fst row, set_effect (fst row) t1 t2 a (H row))) teams)"
    unfolding set_numbers_eq
    by (subst tally_sets.simps)
       (simp only: One_nat_def set_key_of_1 assms(2) option.case Let_def [of "''set1''"]
          one_set_tbl_cont [OF assms(1)])
  also have "\<dots> = tally_sets gd t1 t2 []
          (map (\<lambda>row. (fst row, set_effect (fst row) t1 t2 b
                                   (set_effect (fst row) t1 t2 a (H row)))) teams)"
    by (subst tally_sets.simps)
       (simp only: set_key_of_2 assms(3) option.case Let_def [of "''set2''"]
          one_set_tbl_cont [OF assms(1)])
  finally show ?thesis by simp
qed

lemma tbl_keys: "fst ` set (map (\<lambda>row. (fst row, H row)) teams) = fst ` set teams"
  by (simp add: image_image)

lemma tally_game_tbl:
  assumes "distinct (map fst teams)" and "counted teams gd"
    and "map_of (sets gd) ''set1'' = Some a" and "map_of (sets gd) ''set2'' = Some b"
  shows "tally_game gd (map (\<lambda>row. (fst row, H row)) teams) =
     Inr (map (\<lambda>row. (fst row, game_effect (fst row) (team1 gd) (team2 gd) a b (H row))) teams)"
proof -
  from assms(2) have c: "completed gd" and k1: "team1 gd \<in> fst ` set teams"
    and k2: "team2 gd \<in> fst ` set teams"
    by (simp_all add: counted_def)
  let ?t1 = "team1 gd" and ?t2 = "team2 gd"
  let ?gp = "\<lambda>x::standing. x\<lparr>games_played := games_played x + 1\<rparr>"
  let ?pd = "\<lambda>x::standing. x\<lparr>point_differential := points_for x - points_against x\<rparr>"
  let ?H1 = "\<lambda>row. if fst row = ?t1 then ?gp (H row) else H row"
  let ?H2 = "\<lambda>row. if fst row = ?t2 then ?gp (?H1 row) else ?H1 row"
  let ?H3 = "\<lambda>row. set_effect (fst row) ?t1 ?t2 b (set_effect (fst row) ?t1 ?t2 a (?H2 row))"
  let ?H4 = "\<lambda>row. if fst row = ?t1 then ?pd (?H3 row) else ?H3 row"
  let ?H5 = "\<lambda>row. if fst row = ?t2 then ?pd (?H4 row) else ?H4 row"
  let ?tbl = "\<lambda>F. map (\<lambda>row. (fst row, F row)) teams"
  have m1: "AList.map_entry ?t1 ?gp (?tbl H) = ?tbl ?H1"
    by (rule map_entry_tbl [OF assms(1)])
  have m2: "AList.map_entry ?t2 ?gp (?tbl ?H1) = ?tbl ?H2"
    by (rule map_entry_tbl [OF assms(1)])
  have m3: "tally_sets gd ?t1 ?t2 set_numbers (?tbl ?H2) = Inr (?tbl ?H3)"
    by (rule tally_sets_tbl [OF assms(1) assms(3) assms(4)])
  have m4: "AList.map_entry ?t1 ?pd (?tbl ?H3) = ?tbl ?H4"
    by (rule map_entry_tbl [OF assms(1)])
  have m5: "AList.map_entry ?t2 ?pd (?tbl ?H4) = ?tbl ?H5"
    by (rule map_entry_tbl [OF assms(1)])
  have run: "tally_game gd (?tbl H) = Inr (?tbl ?H5)"
    unfolding tally_game_def Let_def
    by (simp only: c k1 k2 tbl_keys m1 m2 m3 m4 m5 not_True_eq_False if_False simp_thms
        sum.case)
  have "?H5 row = game_effect (fst row) ?t1 ?t2 a b (H row)" for row
    by (simp add: game_effect_def set_effect_def Let_def)
  then show ?thesis unfolding run by simp
qed

lemma game_sums:
  assumes "map_of (sets gd) ''set1'' = Some a" and "map_of (sets gd) ''set2'' = Some b"
  shows "pts1 gd = team1_score a + team1_score b"
    and "pts2 gd = team2_score a + team2_score b"
    and "wins1 gd = (if team1_score a > team2_score a then 1 else 0)
                  + (if team1_score b > team2_score b then 1 else 0)"
    and "wins2 gd = (if team2_score a > team1_score a then 1 else 0)
                  + (if team2_score b > team1_score b then 1 else 0)"
  by (simp_all add: pts1_def pts2_def wins1_def wins2_def game_scores_eq [OF assms]
      spec_set_wins_def)

lemma game_effect_spec:
  assumes "counted teams gd"
    and "map_of (sets gd) ''set1'' = Some a" and "map_of (sets gd) ''set2'' = Some b"
  shows "game_effect t (team1 gd) (team2 gd) a b (spec_standing teams seen t p) =
         spec_standing teams (seen @ [gd]) t p"
  using assms(1)
  by (simp add: game_effect_def set_effect_def spec_standing_def Let_def
      game_sums [OF assms(2) assms(3)])

lemma tally_game_spec:
  assumes "distinct (map fst teams)" and "counted teams gd \<longrightarrow> has_sets gd"
  shows "tally_game gd (spec_table teams seen) = Inr (spec_table teams (seen @ [gd]))"
proof (cases "counted teams gd")
  case True
  with assms(2) obtain a b where
    a: "map_of (sets gd) ''set1'' = Some a" and b: "map_of (sets gd) ''set2'' = Some b"
    by (auto simp: has_sets_iff)
  show ?thesis
    unfolding spec_table_def
    by (simp only: tally_game_tbl [OF assms(1) True a b] game_effect_spec [OF True a b])
next
  case False
  then have "tally_game gd (spec_table teams seen) = Inr (spec_table teams seen)"
    by (auto simp: tally_game_def counted_def spec_table_keys Let_def)
  with False show ?thesis by (simp add: spec_table_skip)
qed

lemma tally_games_spec:
  assumes "distinct (map fst teams)" and "\<forall>gd \<in> set gds. counted teams gd \<longrightarrow> has_sets gd"
  shows "tally_games gds (spec_table teams seen) = Inr (spec_table teams (seen @ gds))"
  using assms(2)
proof (induction gds arbitrary: seen)
  case Nil
  then show ?case by simp
next
  case (Cons gd gds)
  have "tally_game gd (spec_table teams seen) = Inr (spec_table teams (seen @ [gd]))"
    using Cons.prems by (intro tally_game_spec [OF assms(1)]) simp
  moreover have "tally_games gds (spec_table teams (seen @ [gd])) =
      Inr (spec_table teams ((seen @ [gd]) @ gds))"
    using Cons.prems by (intro Cons.IH) simp
  ultimately show ?case by simp
qed

lemma distinct_map_insort:
  "distinct (map f (insort_key k x xs)) = (f x \<notin> f ` set xs \<and> distinct (map f xs))"
  by (induction xs) (auto simp: set_insort_key)

lemma distinct_map_sort: "distinct (map f (sort_key k xs)) = distinct (map f xs)"
  by (induction xs) (simp_all add: distinct_map_insort)

lemma distinct_map_rev: "distinct (map f (rev xs)) = distinct (map f xs)"
  by (simp only: rev_map [symmetric] distinct_rev)

lemma sorted_reverse_facts:
  "set (sorted_reverse k xs) = set xs"
  "length (sorted_reverse k xs) = length xs"
  "sorted (rev (map k (sorted_reverse k xs)))"
  "distinct (map f (sorted_reverse k xs)) = distinct (map f xs)"
proof -
  show "set (sorted_reverse k xs) = set xs" "length (sorted_reverse k xs) = length xs"
    by (simp_all add: sorted_reverse_def)
  show "sorted (rev (map k (sorted_reverse k xs)))"
    by (simp add: sorted_reverse_def rev_map)
  show "distinct (map f (sorted_reverse k xs)) = distinct (map f xs)"
    unfolding sorted_reverse_def
    by (simp only: distinct_map_rev distinct_map_sort)
qed

lemma spec_standing_team [simp]: "st_team (spec_standing teams gds t p) = t"
  by (simp add: spec_standing_def Let_def)

lemma spec_standing_differential:
  "point_differential (spec_standing teams gds t p) =
   points_for (spec_standing teams gds t p) - points_against (spec_standing teams gds t p)"
  by (simp add: spec_standing_def Let_def)

lemma spec_standing_counted_only:
  "spec_standing teams (map snd (filter (\<lambda>entry. counted teams (snd entry)) games)) t p =
   spec_standing teams (map snd games) t p"
  by (simp add: spec_standing_def filter_map comp_def)

lemma example_standings:
  "map (\<lambda>row. spec_standing example_teams (map snd example_games) (fst row) (pool (snd row)))
     example_teams =
   [\<lparr>st_team = ''D'', st_pool = ''A'', games_played = 3, set_wins = 1, set_losses = 5,
     points_for = 91, points_against = 154, point_differential = - 63\<rparr>,
    \<lparr>st_team = ''C'', st_pool = ''A'', games_played = 1, set_wins = 1, set_losses = 1,
     points_for = 70, points_against = 20, point_differential = 50\<rparr>,
    \<lparr>st_team = ''B'', st_pool = ''A'', games_played = 1, set_wins = 2, set_losses = 0,
     points_for = 42, points_against = 39, point_differential = 3\<rparr>,
    \<lparr>st_team = ''A'', st_pool = ''A'', games_played = 1, set_wins = 2, set_losses = 0,
     points_for = 42, points_against = 32, point_differential = 10\<rparr>]"
  by (simp add: example_teams_def example_games_def example_game_def spec_standing_def
      counted_def pts1_def pts2_def wins1_def wins2_def game_scores_def score_of_def
      set_numbers_eq set_key_of_1 set_key_of_2 spec_set_wins_def Let_def)

text \<open>
  C7. For a dict of teams and a dict of games in which every counted game (completed, both
  team names registered) has its two sets, \<^verbatim>\<open>calculate_standings\<close> returns a list and
  raises nothing. The list holds, for each team, the entry that the specification
  describes (zero for a team without counted games; games played, points for and against,
  set wins and losses by the strict rule, summed over the counted games only, and the
  point differential as points for minus points against), one entry per team, sorted in
  descending lexicographic order of set wins and point differential. Games that are not
  counted do not change the result.
\<close>

theorem calculate_standings_spec:
  assumes "distinct (map fst teams)"
    and "\<forall>entry \<in> set games. counted teams (snd entry) \<longrightarrow> has_sets (snd entry)"
  shows "\<exists>res.
           calculate_standings teams games = Inr res \<and>
           res = sorted_reverse standing_key
                   (map (\<lambda>row. spec_standing teams (map snd games) (fst row) (pool (snd row)))
                      teams) \<and>
           length res = length teams \<and>
           set (map st_team res) = fst ` set teams \<and>
           distinct (map st_team res) \<and>
           sorted (rev (map standing_key res)) \<and>
           (\<forall>x \<in> set res. point_differential x = points_for x - points_against x) \<and>
           calculate_standings teams (filter (\<lambda>entry. counted teams (snd entry)) games) = Inr res"
proof -
  let ?xs = "\<lambda>gs. map (\<lambda>row. spec_standing teams (map snd gs) (fst row) (pool (snd row))) teams"
  let ?res = "sorted_reverse standing_key (?xs games)"
  have calc: "calculate_standings teams gs = Inr (sorted_reverse standing_key (?xs gs))"
    if "\<forall>entry \<in> set gs. counted teams (snd entry) \<longrightarrow> has_sets (snd entry)" for gs
  proof -
    have "tally_games (map snd gs) (init_standings teams) = Inr (spec_table teams (map snd gs))"
      using tally_games_spec [OF assms(1), of "map snd gs" "[]"] that
      by (simp add: init_standings_spec [OF assms(1)])
    then show ?thesis
      by (simp add: calculate_standings_def spec_table_def comp_def)
  qed
  have names: "map st_team (?xs games) = map fst teams"
    by (simp add: comp_def)
  have 1: "calculate_standings teams games = Inr ?res"
    by (rule calc [OF assms(2)])
  have 2: "length ?res = length teams"
    by (simp add: sorted_reverse_facts(2))
  have 3: "set (map st_team ?res) = fst ` set teams"
    using names by (simp add: sorted_reverse_facts(1) image_image)
  have 4: "distinct (map st_team ?res)"
    using assms(1) by (simp only: sorted_reverse_facts(4) names)
  have 5: "sorted (rev (map standing_key ?res))"
    by (rule sorted_reverse_facts(3))
  have 6: "\<forall>x \<in> set ?res. point_differential x = points_for x - points_against x"
    by (auto simp: sorted_reverse_facts(1) spec_standing_differential)
  have eq: "?xs (filter (\<lambda>entry. counted teams (snd entry)) games) = ?xs games"
    by (simp only: spec_standing_counted_only)
  have pre: "\<forall>entry \<in> set (filter (\<lambda>entry. counted teams (snd entry)) games).
      counted teams (snd entry) \<longrightarrow> has_sets (snd entry)"
    using assms(2) by simp
  have 7: "calculate_standings teams (filter (\<lambda>entry. counted teams (snd entry)) games)
      = Inr ?res"
    using calc [OF pre] by (simp only: eq)
  from 1 2 3 4 5 6 7 show ?thesis by blast
qed

text \<open>
  The ranking of the example: \<^verbatim>\<open>A\<close> (2 set wins, +10) before \<^verbatim>\<open>B\<close> (2 set wins, +3)
  before \<^verbatim>\<open>C\<close> (1 set win, +50) before \<^verbatim>\<open>D\<close> (1 set win, -63).
\<close>

theorem calculate_standings_spec_witness:
  "\<exists>res. calculate_standings example_teams example_games = Inr res \<and>
         map st_team res = [''A'', ''B'', ''C'', ''D''] \<and>
         map standing_key res = [(2, 10), (2, 3), (1, 50), (1, - 63)]"
proof -
  have d: "distinct (map fst example_teams)"
    by (simp add: example_teams_def)
  have h: "\<forall>entry \<in> set example_games.
      counted example_teams (snd entry) \<longrightarrow> has_sets (snd entry)"
    by (simp add: example_games_def example_game_def has_sets_iff)
  from calculate_standings_spec [OF d h] obtain res where
    r: "calculate_standings example_teams example_games = Inr res"
       "res = sorted_reverse standing_key
               (map (\<lambda>row. spec_standing example_teams (map snd example_games)
                              (fst row) (pool (snd row))) example_teams)"
    by blast
  have "map st_team res = [''A'', ''B'', ''C'', ''D''] \<and>
        map standing_key res = [(2, 10), (2, 3), (1, 50), (1, - 63)]"
    unfolding r(2) example_standings
    by (simp add: sorted_reverse_def standing_key_def)
  with r(1) show ?thesis by (intro exI [of _ res]) simp
qed

end
